theory Spec2Isabelle
  imports Main "HOL-Library.AList" "HOL-Library.Sublist"
begin

section \<open>Strings\<close>

text \<open>
  A JavaScript string is the sequence of its UTF-16 code units, each a number below
  \<open>65536\<close>. The texts that the scripts contain are written with \<open>lit\<close>, which gives an
  ASCII literal as its code units.
\<close>

type_synonym code_unit = nat

type_synonym jstring = "code_unit list"

definition cu :: "char \<Rightarrow> code_unit" where
  cu_def [simp]: "cu c = of_char c"

definition lit :: "string \<Rightarrow> jstring" where
  lit_def [simp]: "lit s = map cu s"

definition LF :: code_unit where
  "LF = 10"

text \<open>
  The code units of the ECMAScript class \<open>WhiteSpace\<close>: TAB, VT, FF, SP, NBSP, the
  other space separators (U+1680, U+2000 to U+200A, U+202F, U+205F, U+3000) and
  U+FEFF.
\<close>

definition white_space :: "code_unit list" where
  "white_space =
     [9, 11, 12, 32, 160, 5760,
      8192, 8193, 8194, 8195, 8196, 8197, 8198, 8199, 8200, 8201, 8202,
      8239, 8287, 12288, 65279]"

text \<open>The code units of the class \<open>LineTerminator\<close>: LF, CR, U+2028, U+2029.\<close>

definition line_terminator :: "code_unit list" where
  "line_terminator = [10, 13, 8232, 8233]"

text \<open>What \<^verbatim>\<open>trim\<close> strips: white space and line terminators.\<close>

definition is_space :: "code_unit \<Rightarrow> bool" where
  "is_space c = (c \<in> set white_space \<or> c \<in> set line_terminator)"

text \<open>\<^verbatim>\<open>s.trim()\<close>\<close>

definition trim :: "jstring \<Rightarrow> jstring" where
  "trim s = rev (dropWhile is_space (rev (dropWhile is_space s)))"

text \<open>\<^verbatim>\<open>s.split(c)\<close> for a one-character separator: never the empty array.\<close>

fun split_on :: "code_unit \<Rightarrow> jstring \<Rightarrow> jstring list" where
  "split_on c [] = [[]]"
| "split_on c (x # xs) =
     (if x = c then [] # split_on c xs
      else (case split_on c xs of
              [] \<Rightarrow> [[x]]
            | y # ys \<Rightarrow> (x # y) # ys))"

text \<open>\<^verbatim>\<open>parts.join(sep)\<close>\<close>

fun join :: "jstring \<Rightarrow> jstring list \<Rightarrow> jstring" where
  "join sep [] = []"
| "join sep [x] = x"
| "join sep (x # y # ys) = x @ sep @ join sep (y # ys)"

text \<open>\<^verbatim>\<open>s.startsWith(p)\<close>\<close>

definition startsWith :: "jstring \<Rightarrow> jstring \<Rightarrow> bool" where
  "startsWith s p = prefix p s"

text \<open>\<^verbatim>\<open>s.includes(p)\<close>: \<open>p\<close> occurs in \<open>s\<close> as a contiguous substring.\<close>

fun includes_str :: "jstring \<Rightarrow> jstring \<Rightarrow> bool" where
  "includes_str [] p = (p = [])"
| "includes_str (c # cs) p = (prefix p (c # cs) \<or> includes_str cs p)"

text \<open>
  \<^verbatim>\<open>toUpperCase\<close> and \<^verbatim>\<open>toLowerCase\<close> follow the case mappings of the Unicode
  standard, which are not written out here: the functions that call them take them as
  a parameter of the same name, and what is proved holds for every such mapping. The
  two functions below are their action on ASCII text, for use in examples.
\<close>

definition upper_ascii :: "jstring \<Rightarrow> jstring" where
  "upper_ascii s = map (\<lambda>c. if 97 \<le> c \<and> c \<le> 122 then c - 32 else c) s"

definition lower_ascii :: "jstring \<Rightarrow> jstring" where
  "lower_ascii s = map (\<lambda>c. if 65 \<le> c \<and> c \<le> 90 then c + 32 else c) s"


section \<open>Objects used as configuration maps\<close>

text \<open>
  The configuration map is a plain object created by \<^verbatim>\<open>{}\<close>. Its own properties are
  kept in creation order. A property value is a string, or, after
  \<^verbatim>\<open>env[key] = env[key]\<close> on a name that \<^verbatim>\<open>Object.prototype\<close> defines, the
  member of \<^verbatim>\<open>Object.prototype\<close> of that name (\<open>Proto_member name\<close>: a function,
  truthy, never equal to a string). A member is only ever stored under its own name.
\<close>

datatype js_value = Str jstring | Proto_member jstring

type_synonym js_object = "(jstring \<times> js_value) list"

text \<open>The names \<^verbatim>\<open>Object.prototype\<close> defines; a read of one that is not an own
  property finds the inherited member.\<close>

definition proto_names :: "jstring list" where
  "proto_names =
     [lit ''constructor'', lit ''__defineGetter__'', lit ''__defineSetter__'',
       lit ''hasOwnProperty'',
      lit ''__lookupGetter__'', lit ''__lookupSetter__'', lit ''isPrototypeOf'',
      lit ''propertyIsEnumerable'', lit ''toString'', lit ''valueOf'', lit ''__proto__'',
      lit ''toLocaleString'']"

text \<open>The own property of a name, if any.\<close>

definition own :: "js_object \<Rightarrow> jstring \<Rightarrow> js_value option" where
  "own env key = map_of env key"

text \<open>\<^verbatim>\<open>env[key]\<close> as an expression; \<open>None\<close> is \<^verbatim>\<open>undefined\<close>. The accessor
  \<^verbatim>\<open>__proto__\<close> is never an own property and reads the prototype object.\<close>

definition obj_get :: "js_object \<Rightarrow> jstring \<Rightarrow> js_value option" where
  "obj_get env key =
     (if key = lit ''__proto__'' then Some (Proto_member key)
      else (case own env key of
              Some v \<Rightarrow> Some v
            | None \<Rightarrow> if key \<in> set proto_names then Some (Proto_member key) else None))"

text \<open>Truthiness of \<^verbatim>\<open>env[key]\<close>: \<^verbatim>\<open>undefined\<close> and the empty string are falsy.\<close>

fun truthy :: "js_value option \<Rightarrow> bool" where
  "truthy None = False"
| "truthy (Some (Str s)) = (s \<noteq> [])"
| "truthy (Some (Proto_member name)) = True"

text \<open>\<^verbatim>\<open>env[key] = value\<close>: an existing own property keeps its place, a new one is
  created last. Assigning to \<^verbatim>\<open>__proto__\<close> calls the inherited setter, which ignores a
  string and leaves the prototype as it is when given the prototype itself, so no
  property is created.\<close>

definition obj_set :: "js_object \<Rightarrow> jstring \<Rightarrow> js_value \<Rightarrow> js_object" where
  "obj_set env key v = (if key = lit ''__proto__'' then env else AList.update key v env)"

text \<open>\<^verbatim>\<open>delete env[key]\<close>\<close>

definition obj_delete :: "js_object \<Rightarrow> jstring \<Rightarrow> js_object" where
  "obj_delete env key = AList.delete key env"

definition is_digit :: "code_unit \<Rightarrow> bool" where
  "is_digit c = (48 \<le> c \<and> c \<le> 57)"

definition dec_val :: "jstring \<Rightarrow> nat" where
  "dec_val s = foldl (\<lambda>n c. 10 * n + (c - 48)) 0 s"

text \<open>An array index is a canonical decimal numeral below \<open>2^32 - 1\<close>.\<close>

definition is_array_index :: "jstring \<Rightarrow> bool" where
  "is_array_index k =
     (k \<noteq> [] \<and> list_all is_digit k \<and> (if hd k = cu (CHR ''0'') then k = lit ''0'' else True)
      \<and> length k \<le> 10 \<and> dec_val k < 4294967295)"

text \<open>\<^verbatim>\<open>Object.entries(env)\<close>: array-index keys first in ascending numeric order,
  then the other keys in creation order.\<close>

definition Object_entries :: "js_object \<Rightarrow> (jstring \<times> js_value) list" where
  "Object_entries env =
     sort_key (\<lambda>p. dec_val (fst p)) (filter (\<lambda>p. is_array_index (fst p)) env)
     @ filter (\<lambda>p. \<not> is_array_index (fst p)) env"

text \<open>\<^verbatim>\<open>Object.keys(env)\<close>\<close>

definition Object_keys :: "js_object \<Rightarrow> jstring list" where
  "Object_keys env = map fst (Object_entries env)"

text \<open>\<^verbatim>\<open>`${value}`\<close> for a member of \<^verbatim>\<open>Object.prototype\<close>: the source text of a
  native function, and for \<^verbatim>\<open>__proto__\<close> the prototype object itself.\<close>

definition render_member :: "jstring \<Rightarrow> jstring" where
  "render_member name =
     (if name = lit ''__proto__'' then lit ''[object Object]''
      else if name = lit ''constructor'' then lit ''function Object() { [native code] }''
      else lit ''function '' @ name @ lit ''() { [native code] }'')"

text \<open>\<^verbatim>\<open>`${value}`\<close> and the conversion of a value to a property name.\<close>

definition to_string :: "js_value \<Rightarrow> jstring" where
  "to_string v = (case v of Str s \<Rightarrow> s | Proto_member name \<Rightarrow> render_member name)"


section \<open>env-manager.js: parsing and serialising\<close>

text \<open>One iteration of the loop of \<^verbatim>\<open>parseEnvFile\<close>.\<close>

definition parse_line :: "js_object \<Rightarrow> jstring \<Rightarrow> js_object" where
  "parse_line env line =
     (let trimmed = trim line in
      if trimmed = [] \<or> startsWith trimmed (lit ''#'') then env
      else (case split_on (cu (CHR ''='')) trimmed of
              [] \<Rightarrow> env
            | key # valueParts \<Rightarrow>
                (let v = trim (join (lit ''='') valueParts) in
                 if key \<noteq> [] then obj_set env key (Str v) else env)))"

definition parseEnvFile :: "jstring \<Rightarrow> js_object" where
  "parseEnvFile content = foldl parse_line [] (split_on LF content)"

definition entry_line :: "jstring \<times> js_value \<Rightarrow> jstring" where
  "entry_line p = fst p @ lit ''='' @ to_string (snd p)"

definition stringifyEnv :: "js_object \<Rightarrow> jstring" where
  "stringifyEnv env = join [LF] (map entry_line (Object_entries env)) @ [LF]"



section \<open>env-manager.js: console, prompts and files\<close>

text \<open>
  What the script does to the outside is recorded as a list of events, in order. A
  \<open>Log\<close> event is one line written by \<^verbatim>\<open>console.log\<close> (\<open>Plain\<close>) or by one of the
  \<^verbatim>\<open>log\<close> helpers, whose coloured tag is the level. \<open>Asked q a\<close> is one
  \<^verbatim>\<open>readline.question\<close>: the question passed to \<^verbatim>\<open>askQuestion\<close> and the line the
  operator typed. \<open>WriteFile p c\<close> is one call \<^verbatim>\<open>fs.writeFileSync(p, c)\<close>, whether it
  returns or throws. \<open>Exit n\<close> is \<^verbatim>\<open>process.exit(n)\<close>.
\<close>

datatype level = Plain | Info | Success | Warn | Failure

datatype event =
    Log level jstring
  | Asked jstring jstring
  | WriteFile jstring jstring
  | ClearScreen
  | CloseReadline
  | Connect jstring
  | Query jstring
  | Exec jstring
  | NewPool jstring
  | ClientEnd
  | PoolEnd
  | Exit nat

text \<open>
  The result of an asynchronous step that reads the operator's lines: it returns a
  value with the lines left over, it throws, or it waits for a line that never comes
  (the input has ended and the promise of \<^verbatim>\<open>askQuestion\<close> is never resolved).
\<close>

datatype 'a run =
    Returns 'a "jstring list" "event list"
  | Throws jstring "event list"
  | Waits "event list"

text \<open>A file on disk: absent, present but failing to be read with a message, or
  present with its content.\<close>

datatype disk_file = Absent | Unreadable jstring | Content jstring

text \<open>The two files of the script, at the paths \<^verbatim>\<open>ENV_FILE\<close> and
  \<^verbatim>\<open>ENV_EXAMPLE_FILE\<close>; \<open>write_error\<close> is the message \<^verbatim>\<open>writeFileSync\<close> throws
  with, if it throws.\<close>

record fs =
  ENV_FILE :: jstring
  ENV_EXAMPLE_FILE :: jstring
  env_file :: disk_file
  example_file :: disk_file
  write_error :: "jstring option"

text \<open>\<^verbatim>\<open>a || b\<close>\<close>

definition or_else :: "js_value option \<Rightarrow> js_value \<Rightarrow> js_value" where
  "or_else a b = (case a of None \<Rightarrow> b | Some v \<Rightarrow> if truthy (Some v) then v else b)"

definition askQuestion :: "jstring \<Rightarrow> js_value \<Rightarrow> jstring list \<Rightarrow> js_value run" where
  "askQuestion question defaultValue inputs =
     (case inputs of
        [] \<Rightarrow> Waits []
      | answer # rest \<Rightarrow>
          Returns (or_else (Some (Str (trim answer))) defaultValue) rest [Asked question answer])"




section \<open>env-manager.js: the menu actions\<close>

definition sensitive :: "jstring list" where
  "sensitive = [lit ''PASSWORD'', lit ''SECRET'', lit ''KEY'', lit ''TOKEN'']"

definition isSensitive :: "(jstring \<Rightarrow> jstring) \<Rightarrow> jstring \<Rightarrow> bool" where
  "isSensitive toUpperCase key = list_ex (\<lambda>s. includes_str (toUpperCase key) s) sensitive"

definition display_line ::
  "(jstring \<Rightarrow> jstring) \<Rightarrow> jstring \<times> js_value \<Rightarrow> event" where
  "display_line toUpperCase p =
     Log Plain (lit ''  '' @ fst p @ lit ''=''
                @ (if isSensitive toUpperCase (fst p) then lit ''********''
                   else to_string (snd p)))"

definition listVariables :: "(jstring \<Rightarrow> jstring) \<Rightarrow> js_object \<Rightarrow> event list" where
  "listVariables toUpperCase env =
     [Log Plain (LF # lit ''Current environment variables:''),
      Log Plain (lit ''-'' @ replicate 58 (cu (CHR ''-'')))]
     @ (if length (Object_keys env) = 0
        then [Log Plain (lit ''  No environment variables set.'')]
        else map (display_line toUpperCase) (Object_entries env))"

definition updateVariable :: "js_object \<Rightarrow> jstring list \<Rightarrow> js_object run" where
  "updateVariable env inputs =
     (case askQuestion (lit ''Enter variable name'') (Str []) inputs of
        Waits t \<Rightarrow> Waits t
      | Throws e t \<Rightarrow> Throws e t
      | Returns key rest t \<Rightarrow>
          if \<not> truthy (Some key)
          then Returns env rest (t @ [Log Warn (lit ''Variable name cannot be empty'')])
          else
            (let currentValue = or_else (obj_get env (to_string key)) (Str []) in
             case askQuestion (lit ''Enter value for '' @ to_string key) currentValue rest of
               Waits t' \<Rightarrow> Waits (t @ t')
             | Throws e t' \<Rightarrow> Throws e (t @ t')
             | Returns v rest' t' \<Rightarrow>
                 if v = Str []
                 then Returns env rest' (t @ t' @ [Log Warn (lit ''Value cannot be empty'')])
                 else Returns (obj_set env (to_string key) v) rest'
                        (t @ t' @ [Log Success (lit ''Updated '' @ to_string key)])))"

text \<open>\<^verbatim>\<open>env.hasOwnProperty(key)\<close>: the method is looked up on \<open>env\<close> first, so an own
  property of that name holding a string makes the call a \<open>TypeError\<close>.\<close>

definition hasOwnProperty :: "js_object \<Rightarrow> jstring \<Rightarrow> bool option" where
  "hasOwnProperty env key =
     (case own env (lit ''hasOwnProperty'') of
        Some (Str s) \<Rightarrow> None
      | _ \<Rightarrow> Some (own env key \<noteq> None))"

definition not_a_function :: jstring where
  "not_a_function = lit ''TypeError: env.hasOwnProperty is not a function''"

definition removeVariable :: "js_object \<Rightarrow> jstring list \<Rightarrow> js_object run" where
  "removeVariable env inputs =
     (case askQuestion (lit ''Enter variable name to remove'') (Str []) inputs of
        Waits t \<Rightarrow> Waits t
      | Throws e t \<Rightarrow> Throws e t
      | Returns key rest t \<Rightarrow>
          if \<not> truthy (Some key)
          then Returns env rest (t @ [Log Warn (lit ''Variable name cannot be empty'')])
          else
            (case hasOwnProperty env (to_string key) of
               None \<Rightarrow> Throws not_a_function t
             | Some True \<Rightarrow>
                 Returns (obj_delete env (to_string key)) rest
                   (t @ [Log Success (lit ''Removed '' @ to_string key)])
             | Some False \<Rightarrow>
                 Returns env rest
                   (t @ [Log Warn (lit ''Variable '' @ to_string key @ lit '' not found'')])))"

text \<open>The loop of \<^verbatim>\<open>importFromExample\<close> over the entries of the template: the map
  as mutated so far, and the count, or \<open>None\<close> when \<^verbatim>\<open>env.hasOwnProperty\<close> threw.\<close>

fun import_entries ::
  "js_object \<Rightarrow> nat \<Rightarrow> (jstring \<times> js_value) list \<Rightarrow> js_object \<times> nat option" where
  "import_entries env imported [] = (env, Some imported)"
| "import_entries env imported ((key, v) # es) =
     (case hasOwnProperty env key of
        None \<Rightarrow> (env, None)
      | Some True \<Rightarrow> import_entries env imported es
      | Some False \<Rightarrow> import_entries (obj_set env key v) (Suc imported) es)"

text \<open>\<^verbatim>\<open>`${imported}`\<close>: the decimal numeral of a count.\<close>

definition digit_char :: "nat \<Rightarrow> code_unit" where
  "digit_char d = d + 48"

fun number_text :: "nat \<Rightarrow> jstring" where
  "number_text n =
     (if 10 \<le> n then number_text (n div 10) @ [digit_char (n mod 10)] else [digit_char n])"

declare number_text.simps [simp del]

definition importFromExample :: "fs \<Rightarrow> js_object \<Rightarrow> js_object \<times> event list" where
  "importFromExample f env =
     (case example_file f of
        Absent \<Rightarrow> (env, [Log Failure (ENV_EXAMPLE_FILE f @ lit '' not found'')])
      | Unreadable message \<Rightarrow>
          (env, [Log Failure (lit ''Failed to import from '' @ ENV_EXAMPLE_FILE f @ lit '': ''
                              @ message)])
      | Content content \<Rightarrow>
          (case import_entries env 0 (Object_entries (parseEnvFile content)) of
             (env', None) \<Rightarrow>
               (env', [Log Failure (lit ''Failed to import from '' @ ENV_EXAMPLE_FILE f @ lit '': ''
                                    @ lit ''env.hasOwnProperty is not a function'')])
           | (env', Some imported) \<Rightarrow>
               if imported > 0
               then (env', [Log Success (lit ''Imported '' @ number_text imported
                                         @ lit '' variables from '' @ ENV_EXAMPLE_FILE f)])
               else (env', [Log Info (lit ''No new variables to import'')])))"

definition required :: "jstring list" where
  "required =
     [lit ''NODE_ENV'', lit ''PORT'', lit ''JWT_SECRET'', lit ''FRONTEND_URL'', lit ''DB_HOST'',
       lit ''DB_PORT'',
      lit ''DB_NAME'', lit ''DB_USER'', lit ''DB_PASSWORD'']"

text \<open>The list \<^verbatim>\<open>missing\<close> that the loop of \<^verbatim>\<open>validateConfig\<close> builds.\<close>

definition missing_keys :: "js_object \<Rightarrow> jstring list" where
  "missing_keys env = filter (\<lambda>key. \<not> truthy (obj_get env key)) required"

text \<open>\<^verbatim>\<open>validateConfig\<close> has no assignment to \<open>env\<close>; it returns \<^verbatim>\<open>isValid\<close>, which
  the loop clears whenever it pushes a key.\<close>

definition validateConfig :: "js_object \<Rightarrow> bool \<times> event list" where
  "validateConfig env =
     (let missing = missing_keys env;
          isValid = (missing = [])
      in (isValid,
          [Log Info (lit ''Validating configuration...'')]
          @ (if isValid then [Log Success (lit ''Configuration is valid!'')]
             else [Log Failure (lit ''Missing required configuration:'')]
                  @ map (\<lambda>key. Log Plain (lit ''  - '' @ key)) missing
                  @ [Log Warn
                       (LF # lit ''Please set these variables before starting the application'')])))"

definition showSensitiveValues :: "js_object \<Rightarrow> event list" where
  "showSensitiveValues env =
     [Log Plain (LF # lit ''Current environment variables (including sensitive values):''),
      Log Plain (lit ''-'' @ replicate 78 (cu (CHR ''-'')))]
     @ (if length (Object_keys env) = 0
        then [Log Plain (lit ''  No environment variables set.'')]
        else map (\<lambda>p. Log Plain (lit ''  '' @ fst p @ lit ''='' @ to_string (snd p)))
               (Object_entries env))"



section \<open>env-manager.js: the menu and the session\<close>

record menu_result =
  save :: bool
  exit :: bool

type_synonym action = "fs \<Rightarrow> js_object \<Rightarrow> jstring list \<Rightarrow> js_object run"

text \<open>The table \<^verbatim>\<open>options\<close>: key, name and action (\<open>None\<close> is \<^verbatim>\<open>null\<close>). Every
  action is called as \<^verbatim>\<open>selected.action(env)\<close> and returns the map as it leaves it.\<close>

definition options ::
  "(jstring \<Rightarrow> jstring) \<Rightarrow> (jstring \<times> jstring \<times> action option) list" where
  "options toUpperCase =
     [(lit ''1'', lit ''List all variables'',
         Some (\<lambda>f env inputs. Returns env inputs (listVariables toUpperCase env))),
      (lit ''2'', lit ''Add/Update variable'',
         Some (\<lambda>f env inputs. updateVariable env inputs)),
      (lit ''3'', lit ''Remove variable'',
         Some (\<lambda>f env inputs. removeVariable env inputs)),
      (lit ''4'', lit ''Import from .env.example'',
         Some (\<lambda>f env inputs.
                 Returns (fst (importFromExample f env)) inputs (snd (importFromExample f env)))),
      (lit ''5'', lit ''Validate configuration'',
         Some (\<lambda>f env inputs. Returns env inputs (snd (validateConfig env)))),
      (lit ''6'', lit ''Show sensitive values'',
         Some (\<lambda>f env inputs. Returns env inputs (showSensitiveValues env))),
      (lit ''s'', lit ''Save and exit'', None),
      (lit ''q'', lit ''Exit without saving'', None)]"

text \<open>\<^verbatim>\<open>s.padEnd(n)\<close>\<close>

definition padEnd :: "nat \<Rightarrow> jstring \<Rightarrow> jstring" where
  "padEnd n s = s @ replicate (n - length s) (cu (CHR '' ''))"

definition menu_lines :: "(jstring \<Rightarrow> jstring) \<Rightarrow> event list" where
  "menu_lines toUpperCase =
     [Log Plain (LF # replicate 60 (cu (CHR ''=''))),
      Log Plain (padEnd 60 (lit '' Environment Variables Manager'')),
      Log Plain (replicate 60 (cu (CHR ''='')))]
     @ map (\<lambda>opt. Log Plain (lit ''  '' @ fst opt @ lit ''. ''
       @ fst (snd opt))) (options toUpperCase)"

definition menu_question :: jstring where
  "menu_question = LF # lit ''Enter your choice''"

definition showMenu ::
  "(jstring \<Rightarrow> jstring) \<Rightarrow> fs \<Rightarrow> js_object \<Rightarrow> jstring list
   \<Rightarrow> (menu_result \<times> js_object) run" where
  "showMenu toUpperCase f env inputs =
     (case askQuestion menu_question (Str []) inputs of
        Waits t \<Rightarrow> Waits (menu_lines toUpperCase @ t)
      | Throws e t \<Rightarrow> Throws e (menu_lines toUpperCase @ t)
      | Returns choice rest t \<Rightarrow>
          if choice = Str (lit ''s'')
          then Returns (\<lparr>save = True, exit = True\<rparr>, env) rest (menu_lines toUpperCase @ t)
          else if choice = Str (lit ''q'')
          then Returns (\<lparr>save = False, exit = True\<rparr>, env) rest (menu_lines toUpperCase @ t)
          else
            (case find (\<lambda>opt. Str (fst opt) = choice) (options toUpperCase) of
               Some (k, n, Some act) \<Rightarrow>
                 (case act f env rest of
                    Waits t' \<Rightarrow> Waits (menu_lines toUpperCase @ t @ t')
                  | Throws e t' \<Rightarrow> Throws e (menu_lines toUpperCase @ t @ t')
                  | Returns env' rest' t' \<Rightarrow>
                      Returns (\<lparr>save = False, exit = False\<rparr>, env') rest'
                        (menu_lines toUpperCase @ t @ t'))
             | _ \<Rightarrow>
                 Returns (\<lparr>save = False, exit = False\<rparr>, env) rest
                   (menu_lines toUpperCase @ t
                     @ [Log Warn (lit ''Invalid choice. Please try again.'')])))"











section \<open>Process exit\<close>

text \<open>\<^verbatim>\<open>process.exit\<close> ends the process at once: of the statements written after
  it, \<^verbatim>\<open>finally\<close> blocks included, none runs. \<open>until_exit\<close> cuts a sequence of
  events, given in the order the code is written, after the first \<open>Exit\<close>.\<close>

fun until_exit :: "event list \<Rightarrow> event list" where
  "until_exit [] = []"
| "until_exit (Exit n # es) = [Exit n]"
| "until_exit (e # es) = e # until_exit es"


section \<open>initDb.js\<close>

text \<open>What the database server, the two child processes and the operator answer.
  \<open>Rejects\<close> carries the message of the error. The pictographs that open the log
  messages of the script are left out of the message texts.\<close>

datatype 'a outcome = Resolves 'a | Rejects jstring

datatype exec_result = Exec_ok | Exec_fails jstring jstring

record initdb_world =
  connect :: "unit outcome"
  catalog_rows :: "nat outcome"
  create_database :: "unit outcome"
  migrate :: exec_result
  seed_answer :: "jstring option"
  seed :: exec_result

text \<open>\<^verbatim>\<open>runCommand\<close>: \<^verbatim>\<open>execSync\<close> either returns or throws an error with a
  message and the text of its error output (empty when it has none). On failure the
  text that the callers log is \<^verbatim>\<open>result.stderr || result.error\<close>, where
  \<^verbatim>\<open>result.stderr\<close> is the trimmed error output.\<close>

definition runCommand :: "jstring \<Rightarrow> exec_result \<Rightarrow> jstring option \<times> event list" where
  "runCommand command r =
     (case r of
        Exec_ok \<Rightarrow> (None, [Log Info (lit ''Running: '' @ command), Exec command])
      | Exec_fails message stderr \<Rightarrow>
          (Some (if trim stderr \<noteq> [] then trim stderr else message),
           [Log Info (lit ''Running: '' @ command), Exec command]))"

text \<open>\<^verbatim>\<open>checkDatabaseConnection\<close>: \<open>connected\<close> and the events. The client connects
  to the database \<^verbatim>\<open>postgres\<close>.\<close>

definition checkDatabaseConnection :: "initdb_world \<Rightarrow> bool \<times> event list" where
  "checkDatabaseConnection w =
     (case connect w of
        Resolves u \<Rightarrow>
          (True, [Log Info (lit ''Testing database connection...''), Connect (lit ''postgres''),
                  Log Success (lit ''Successfully connected to PostgreSQL server'')])
      | Rejects message \<Rightarrow>
          (False, [Log Info (lit ''Testing database connection...''), Connect (lit ''postgres''),
                   Log Failure (lit ''Failed to connect to PostgreSQL server''),
                   Log Failure (lit ''Error: '' @ message)]))"

definition create_failed :: "jstring \<Rightarrow> jstring \<Rightarrow> event list" where
  "create_failed dbName message =
     [Log Failure (lit ''Failed to create database '' @ [cu (CHR 0x27)] @ dbName @ [cu (CHR 0x27)]),
      Log Failure (lit ''Error: '' @ message)]"

text \<open>\<^verbatim>\<open>createDatabase\<close>; \<open>dbName\<close> is \<^verbatim>\<open>config.database\<close> of
  \<^verbatim>\<open>config/database.js\<close>. Both queries are inside the one \<^verbatim>\<open>try\<close>, whose
  \<^verbatim>\<open>catch\<close> logs and returns \<^verbatim>\<open>false\<close>.\<close>

definition createDatabase :: "jstring \<Rightarrow> initdb_world \<Rightarrow> bool \<times> event list" where
  "createDatabase dbName w =
     (let checking =
            [Log Info (lit ''Checking if database '' @ [cu (CHR 0x27)] @ dbName @ [cu (CHR 0x27)]
                       @ lit '' exists...''),
             Query (lit ''SELECT 1 FROM pg_database WHERE datname = $1'')]
      in case catalog_rows w of
           Rejects message \<Rightarrow> (False, checking @ create_failed dbName message)
         | Resolves rows \<Rightarrow>
             if rows = 0 then
               (let creating =
                      [Log Info (lit ''Creating database '' @ [cu (CHR 0x27)] @ dbName
                        @ [cu (CHR 0x27)]
                                 @ lit ''...''),
                       Query (lit ''CREATE DATABASE '' @ dbName)]
                in case create_database w of
                     Rejects message \<Rightarrow>
                       (False, checking @ creating @ create_failed dbName message)
                   | Resolves u \<Rightarrow>
                       (True, checking @ creating
                          @ [Log Success (lit ''Database '' @ [cu (CHR 0x27)] @ dbName
                            @ [cu (CHR 0x27)]
                                          @ lit '' created successfully'')]))
             else
               (True, checking
                  @ [Log Success (lit ''Database '' @ [cu (CHR 0x27)] @ dbName @ [cu (CHR 0x27)]
                                  @ lit '' already exists'')]))"

definition runMigrations :: "initdb_world \<Rightarrow> bool \<times> event list" where
  "runMigrations w =
     (case runCommand (lit ''npx sequelize-cli db:migrate'') (migrate w) of
        (Some text, t) \<Rightarrow>
          (False, [Log Info (lit ''Running database migrations...'')] @ t
                  @ [Log Failure (lit ''Failed to run migrations''), Log Failure text])
      | (None, t) \<Rightarrow>
          (True, [Log Info (lit ''Running database migrations...'')] @ t
                 @ [Log Success (lit ''Database migrations completed successfully'')]))"

definition seedDatabase :: "initdb_world \<Rightarrow> bool \<times> event list" where
  "seedDatabase w =
     (case runCommand (lit ''npm run seed'') (seed w) of
        (Some text, t) \<Rightarrow>
          (False, [Log Info (lit ''Seeding database with initial data...'')] @ t
                  @ [Log Failure (lit ''Failed to seed database''), Log Failure text])
      | (None, t) \<Rightarrow>
          (True, [Log Info (lit ''Seeding database with initial data...'')] @ t
                 @ [Log Success (lit ''Database seeded successfully'')]))"

text \<open>How the \<^verbatim>\<open>try\<close> block of \<^verbatim>\<open>main\<close> is left: at its end, by a \<^verbatim>\<open>throw\<close>, or
  never (the question about seeding gets no answer).\<close>

datatype flow = Normal | Thrown jstring | Stuck

definition seed_question :: jstring where
  "seed_question = LF # lit ''Would you like to seed the database with initial data? (y/N): ''"

definition completed :: "event list" where
  "completed =
     [Log Success (LF # lit ''Database setup completed successfully!''),
      Log Info (LF # lit ''You can now start the application with:''),
      Log Plain (lit ''  npm run dev'' @ [LF])]"

definition try_block ::
  "(jstring \<Rightarrow> jstring) \<Rightarrow> jstring \<Rightarrow> initdb_world \<Rightarrow> flow \<times> event list" where
  "try_block toLowerCase dbName w =
     (let (dbCreated, t1) = createDatabase dbName w in
      if \<not> dbCreated then (Thrown (lit ''Failed to create database''), t1)
      else
        (let (migrationsRun, t2) = runMigrations w in
         if \<not> migrationsRun then (Thrown (lit ''Failed to run migrations''), t1 @ t2)
         else
           (case seed_answer w of
              None \<Rightarrow> (Stuck, t1 @ t2)
            | Some answer \<Rightarrow>
                if toLowerCase (trim answer) = lit ''y'' then
                  (let (seeded, t3) = seedDatabase w in
                   if \<not> seeded
                   then (Thrown (lit ''Failed to seed database''),
                         t1 @ t2 @ [Asked seed_question answer] @ t3)
                   else (Normal, t1 @ t2 @ [Asked seed_question answer] @ t3 @ completed))
                else (Normal, t1 @ t2 @ [Asked seed_question answer] @ completed))))"

definition catch_block :: "jstring \<Rightarrow> event list" where
  "catch_block message =
     [Log Failure (LF # lit ''Database initialization failed''),
      Log Failure (lit ''Error: '' @ message),
      Exit 1]"

text \<open>\<^verbatim>\<open>finally { if (client) await client.end(); readline.close(); }\<close>; the client is
  not null once the probe has connected.\<close>

definition finally_block :: "event list" where
  "finally_block = [ClientEnd, CloseReadline]"

definition banner :: "event list" where
  "banner =
     [Log Plain (LF # lit ''MeetCute Database Initialization''),
      Log Plain (replicate 60 (cu (CHR ''='')) @ [LF])]"

text \<open>\<^verbatim>\<open>main\<close> of \<^verbatim>\<open>initDb.js\<close>: the events of one run. The blocks are joined in the
  order the code is written, and \<open>until_exit\<close> ends the run at \<^verbatim>\<open>process.exit\<close>.\<close>

definition main_initDb ::
  "(jstring \<Rightarrow> jstring) \<Rightarrow> jstring \<Rightarrow> initdb_world \<Rightarrow> event list" where
  "main_initDb toLowerCase dbName w =
     (let (connected, t0) = checkDatabaseConnection w in
      if \<not> connected
      then until_exit
             (banner @ t0
              @ [Log Failure (lit ''Please check your database configuration in config/database.js''),
                 Exit 1])
      else
        (case try_block toLowerCase dbName w of
           (Normal, t) \<Rightarrow> until_exit (banner @ t0 @ t @ finally_block)
         | (Thrown message, t) \<Rightarrow>
             until_exit (banner @ t0 @ t @ catch_block message @ finally_block)
         | (Stuck, t) \<Rightarrow> until_exit (banner @ t0 @ t)))"


section \<open>The database module (getDbConfig, initializeDatabase)\<close>

record process_env =
  DATABASE_URL :: "jstring option"
  NODE_ENV :: "jstring option"

text \<open>A port is the text of the URL or of a variable, or the number \<open>5432\<close> of the
  code.\<close>

datatype port_value = Port_text jstring | Port_number nat

text \<open>The module \<^verbatim>\<open>./env\<close>, which is not among the sources: its five fields are
  taken as given, \<open>None\<close> for \<^verbatim>\<open>undefined\<close>.\<close>

record env_module =
  DB_USER :: "jstring option"
  DB_HOST :: "jstring option"
  DB_NAME :: "jstring option"
  DB_PASSWORD :: "jstring option"
  DB_PORT :: "port_value option"

text \<open>The fields of a parsed \<^verbatim>\<open>URL\<close> that the code reads.\<close>

record url =
  username :: jstring
  password :: jstring
  hostname :: jstring
  port :: jstring
  pathname :: jstring

datatype ssl_setting = Ssl_off | Ssl_reject_unauthorized bool

record db_config =
  cfg_user :: "jstring option"
  cfg_password :: "jstring option"
  cfg_host :: "jstring option"
  cfg_port :: port_value
  cfg_database :: "jstring option"
  cfg_ssl :: ssl_setting

text \<open>Truthiness of a variable of the process environment.\<close>

definition is_set :: "jstring option \<Rightarrow> bool" where
  "is_set v = (case v of None \<Rightarrow> False | Some s \<Rightarrow> s \<noteq> [])"

definition ssl_for :: "process_env \<Rightarrow> ssl_setting" where
  "ssl_for penv =
     (if NODE_ENV penv = Some (lit ''production'') then Ssl_reject_unauthorized False else Ssl_off)"

text \<open>\<^verbatim>\<open>pathname.replace(/^\//, '')\<close>\<close>

definition strip_slash :: "jstring \<Rightarrow> jstring" where
  "strip_slash s = (case s of [] \<Rightarrow> [] | c # cs \<Rightarrow> if c = cu (CHR ''/'') then cs else c # cs)"

definition port_or_default :: "port_value option \<Rightarrow> port_value" where
  "port_or_default p =
     (case p of
        None \<Rightarrow> Port_number 5432
      | Some (Port_text s) \<Rightarrow> if s \<noteq> [] then Port_text s else Port_number 5432
      | Some (Port_number n) \<Rightarrow> if n \<noteq> 0 then Port_number n else Port_number 5432)"

text \<open>\<^verbatim>\<open>getDbConfig\<close>; \<open>parse_url\<close> is \<^verbatim>\<open>new URL\<close>, \<open>None\<close> where it throws. The
  descriptor, or the events of the \<^verbatim>\<open>catch\<close> block, which ends the process.\<close>

definition getDbConfig ::
  "(jstring \<Rightarrow> url option) \<Rightarrow> process_env \<Rightarrow> env_module \<Rightarrow> event list + db_config" where
  "getDbConfig parse_url penv env =
     (if is_set (DATABASE_URL penv) then
        (case parse_url (the (DATABASE_URL penv)) of
           Some u \<Rightarrow>
             Inr \<lparr>cfg_user = Some (username u),
                  cfg_password = Some (password u),
                  cfg_host = Some (hostname u),
                  cfg_port = port_or_default (Some (Port_text (port u))),
                  cfg_database = Some (strip_slash (pathname u)),
                  cfg_ssl = ssl_for penv\<rparr>
         | None \<Rightarrow> Inl [Log Failure (lit ''Error parsing DATABASE_URL:''), Exit 1])
      else
        Inr \<lparr>cfg_user = DB_USER env,
             cfg_password = DB_PASSWORD env,
             cfg_host = DB_HOST env,
             cfg_port = port_or_default (DB_PORT env),
             cfg_database = DB_NAME env,
             cfg_ssl = ssl_for penv\<rparr>)"

text \<open>The result of a query: it resolves, or it rejects with an error whose
  \<^verbatim>\<open>code\<close> is given (\<open>None\<close> when the error has none).\<close>

datatype query_result = Query_ok | Query_error "jstring option"

text \<open>\<^verbatim>\<open>`${env.DB_NAME}`\<close>\<close>

definition name_text :: "jstring option \<Rightarrow> jstring" where
  "name_text v = (case v of None \<Rightarrow> lit ''undefined'' | Some s \<Rightarrow> s)"

text \<open>\<^verbatim>\<open>initializeDatabase\<close>: the events of one call, given the results of the
  liveness query and of the \<^verbatim>\<open>CREATE DATABASE\<close> query.\<close>

definition initializeDatabase ::
  "process_env \<Rightarrow> env_module \<Rightarrow> query_result \<Rightarrow> query_result \<Rightarrow> event list" where
  "initializeDatabase penv env liveness creation =
     until_exit
       ([Query (lit ''SELECT NOW()'')]
        @ (case liveness of
             Query_ok \<Rightarrow> [Log Plain (lit ''Database connected successfully'')]
           | Query_error code \<Rightarrow>
               if code = Some (lit ''3D000'') then
                 (if is_set (DATABASE_URL penv)
                  then [Log Failure (lit ''Database does not exist. Please create it first when using DATABASE_URL''),
                        Exit 1]
                  else [])
                 @ [NewPool (lit ''postgres''),
                    Query (lit ''CREATE DATABASE '' @ name_text (DB_NAME env))]
                 @ (case creation of
                      Query_ok \<Rightarrow>
                        [Log Plain (lit ''Database '' @ name_text (DB_NAME env) @ lit '' created'')]
                    | Query_error c \<Rightarrow> [Log Failure (lit ''Error creating database:''), Exit 1])
                 @ [PoolEnd]
               else [Log Failure (lit ''Database connection error:''), Exit 1]))"


section \<open>Reading a trace\<close>

text \<open>The lines a trace writes with \<^verbatim>\<open>console.log\<close>.\<close>

fun plain_lines :: "event list \<Rightarrow> jstring list" where
  "plain_lines [] = []"
| "plain_lines (Log Plain s # es) = s # plain_lines es"
| "plain_lines (e # es) = plain_lines es"

text \<open>The events of a step, however it ends.\<close>

fun trace_of :: "'a run \<Rightarrow> event list" where
  "trace_of (Returns x rest t) = t"
| "trace_of (Throws e t) = t"
| "trace_of (Waits t) = t"



text \<open>Events that neither write the file nor answer the menu question.\<close>

fun quiet_event :: "event \<Rightarrow> bool" where
  "quiet_event (Log l s) = True"
| "quiet_event (Asked q a) = (q \<noteq> menu_question)"
| "quiet_event e = False"


section \<open>Maps that survive serialising and parsing\<close>

text \<open>A key that \<^verbatim>\<open>parseEnvFile\<close> reads back as it was written: not empty, without
  \<open>=\<close> and without a line feed, not starting with white space or with \<open>#\<close>, and not
  \<^verbatim>\<open>__proto__\<close>.\<close>

definition valid_key :: "jstring \<Rightarrow> bool" where
  "valid_key k =
     (k \<noteq> [] \<and> (cu (CHR ''='')) \<notin> set k \<and> LF \<notin> set k \<and> \<not> is_space (hd k)
      \<and> hd k \<noteq> cu (CHR ''#'') \<and> k \<noteq> lit ''__proto__'')"

text \<open>A value without a line feed and without white space around it.\<close>

definition valid_value :: "jstring \<Rightarrow> bool" where
  "valid_value v = (LF \<notin> set v \<and> trim v = v)"

definition valid_entry :: "jstring \<times> js_value \<Rightarrow> bool" where
  "valid_entry p =
     (valid_key (fst p)
      \<and> (case snd p of Str s \<Rightarrow> valid_value s | Proto_member name \<Rightarrow> False))"


section \<open>Properties of the string and object primitives\<close>

lemma trim_Nil: "trim [] = []"
  by (simp add: trim_def)

text \<open>The definitions that evaluate \<^verbatim>\<open>trim\<close> on a given string.\<close>

lemmas eval_trim = trim_def is_space_def white_space_def line_terminator_def

lemma split_on_not_Nil: "split_on c s \<noteq> []"
  by (induction s) (auto split: list.splits)

lemma split_on_no_sep: "c \<notin> set s \<Longrightarrow> split_on c s = [s]"
  by (induction s) auto

lemma split_on_append: "c \<notin> set a \<Longrightarrow> split_on c (a @ c # b) = a # split_on c b"
  by (induction a) auto

lemma join_Cons: "join sep (x # xs) = (if xs = [] then x else x @ sep @ join sep xs)"
  by (cases xs) auto

lemma join_split_on: "join [c] (split_on c s) = s"
  by (induction s) (auto simp: join_Cons split_on_not_Nil split: list.splits)

lemma falsy_iff: "(\<not> truthy v) = (v = None \<or> v = Some (Str []))"
  by (cases v rule: truthy.cases) auto

lemma askQuestion_line:
  "askQuestion q d (line # rest) =
     Returns (if trim line \<noteq> [] then Str (trim line) else d) rest [Asked q line]"
  by (simp add: askQuestion_def or_else_def)

lemma keys_obj_set:
  "fst ` set (obj_set env k v) =
     (if k = lit ''__proto__'' then fst ` set env else insert k (fst ` set env))"
  by (simp add: obj_set_def dom_update)


section \<open>parseEnvFile: what each line does\<close>

lemma own_obj_set:
  "own (obj_set env k v) k' =
     (if k = lit ''__proto__'' then own env k' else if k' = k then Some v else own env k')"
  by (simp add: own_def obj_set_def update_conv' del: lit_def)

lemma parse_line_skip:
  assumes "trim line = [] \<or> startsWith (trim line) (lit ''#'')"
  shows "parse_line env line = env"
  using assms by (auto simp: parse_line_def Let_def)

lemma parse_line_no_eq:
  assumes "trim line \<noteq> []" "\<not> startsWith (trim line) (lit ''#'')"
    "cu (CHR ''='') \<notin> set (trim line)"
  shows "parse_line env line = obj_set env (trim line) (Str [])"
  using assms by (simp add: parse_line_def Let_def split_on_no_sep trim_Nil)

lemma parse_line_key_value:
  assumes "trim line = k @ cu (CHR ''='') # rest" "cu (CHR ''='') \<notin> set k"
    "\<not> startsWith (trim line) (lit ''#'')"
  shows "parse_line env line = (if k = [] then env else obj_set env k (Str (trim rest)))"
  using assms by (simp add: parse_line_def Let_def split_on_append join_split_on)

lemma parse_line_keys_mono: "fst ` set env \<subseteq> fst ` set (parse_line env line)"
  by (auto simp: parse_line_def Let_def keys_obj_set split: list.splits)

lemma foldl_parse_line_keys_mono: "fst ` set env \<subseteq> fst ` set (foldl parse_line env ls)"
proof (induction ls arbitrary: env)
  case Nil
  show ?case by simp
next
  case (Cons l ls)
  have "fst ` set env \<subseteq> fst ` set (parse_line env l)" by (rule parse_line_keys_mono)
  also have "\<dots> \<subseteq> fst ` set (foldl parse_line (parse_line env l) ls)" by (rule Cons.IH)
  finally show ?case by simp
qed

lemma foldl_parse_line_untouched:
  assumes "\<forall>l \<in> set ls. \<forall>e. own (parse_line e l) k = own e k"
  shows "own (foldl parse_line env ls) k = own env k"
  using assms by (induction ls arbitrary: env) simp_all

text \<open>
  C2 as stated fails: a line without \<open>=\<close> is not dropped. In the text
  \<^verbatim>\<open>A=1\nnot a valid line\nB=2\<close> the middle line has no \<open>=\<close>, is neither blank nor a
  comment, and the parsed map has an entry for it, with the empty string as value.
\<close>

theorem parseEnvFile_line_without_separator_counterexample:
  "cu (CHR ''='') \<notin> set (lit ''not a valid line'')
   \<and> parseEnvFile (lit ''A=1'' @ [LF] @ lit ''not a valid line'' @ [LF] @ lit ''B=2'')
       = [(lit ''A'', Str (lit ''1'')), (lit ''not a valid line'', Str []),
          (lit ''B'', Str (lit ''2''))]"
  by (simp add: parseEnvFile_def parse_line_def LF_def trim_def is_space_def white_space_def
      line_terminator_def startsWith_def obj_set_def Let_def)

text \<open>
  C2 (amended): \<^verbatim>\<open>parseEnvFile\<close> handles the lines of the text in order, each on the
  map built so far. A line that is blank after trimming or starts with \<open>#\<close> leaves the
  map as it is. A non-blank, non-comment line without \<open>=\<close> is not dropped: the loop
  assigns \<^verbatim>\<open>env[line.trim()] = ''\<close>, so the trimmed line is a key of the result, and
  its value is the empty string unless a later line assigns that key (the one name for
  which the assignment creates no property is \<^verbatim>\<open>__proto__\<close>). A line \<open>k=rest\<close>
  assigns \<^verbatim>\<open>env[k] = rest.trim()\<close> and touches no other key; when nothing stands
  before the first \<open>=\<close> it leaves the map as it is.
\<close>

theorem parseEnvFile_keeps_line_without_separator:
  "parseEnvFile content = foldl parse_line [] (split_on LF content)
   \<and> (trim line = [] \<or> startsWith (trim line) (lit ''#'') \<longrightarrow> parse_line env line = env)
   \<and> (trim line \<noteq> [] \<and> \<not> startsWith (trim line) (lit ''#'')
        \<and> cu (CHR ''='') \<notin> set (trim line) \<longrightarrow>
          parse_line env line = obj_set env (trim line) (Str [])
          \<and> (\<forall>k'. k' \<noteq> trim line \<longrightarrow> own (parse_line env line) k' = own env k')
          \<and> (trim line \<noteq> lit ''__proto__'' \<longrightarrow>
                own (parse_line env line) (trim line) = Some (Str [])
                \<and> (split_on LF content = pre @ line # post \<longrightarrow>
                      trim line \<in> fst ` set (parseEnvFile content)
                      \<and> ((\<forall>l \<in> set post. \<forall>e. own (parse_line e l) (trim line)
                                                    = own e (trim line))
                           \<longrightarrow> own (parseEnvFile content) (trim line) = Some (Str [])))))
   \<and> (trim line = k @ cu (CHR ''='') # rest \<and> cu (CHR ''='') \<notin> set k
        \<and> \<not> startsWith (trim line) (lit ''#'') \<longrightarrow>
          parse_line env line = (if k = [] then env else obj_set env k (Str (trim rest)))
          \<and> (\<forall>k'. k' \<noteq> k \<longrightarrow> own (parse_line env line) k' = own env k')
          \<and> (k \<noteq> [] \<and> k \<noteq> lit ''__proto__'' \<longrightarrow>
                own (parse_line env line) k = Some (Str (trim rest))))"
proof (intro conjI impI allI)
  show "parseEnvFile content = foldl parse_line [] (split_on LF content)"
    by (simp add: parseEnvFile_def)
next
  assume "trim line = [] \<or> startsWith (trim line) (lit ''#'')"
  then show "parse_line env line = env" by (rule parse_line_skip)
next
  assume a: "trim line \<noteq> [] \<and> \<not> startsWith (trim line) (lit ''#'')
        \<and> cu (CHR ''='') \<notin> set (trim line)"
  then show "parse_line env line = obj_set env (trim line) (Str [])"
    by (blast intro: parse_line_no_eq)
next
  fix k'
  assume a: "trim line \<noteq> [] \<and> \<not> startsWith (trim line) (lit ''#'')
        \<and> cu (CHR ''='') \<notin> set (trim line)" and k': "k' \<noteq> trim line"
  have "parse_line env line = obj_set env (trim line) (Str [])"
    using a by (blast intro: parse_line_no_eq)
  then show "own (parse_line env line) k' = own env k'"
    using k' by (simp add: own_obj_set del: lit_def)
next
  assume a: "trim line \<noteq> [] \<and> \<not> startsWith (trim line) (lit ''#'')
        \<and> cu (CHR ''='') \<notin> set (trim line)" and p: "trim line \<noteq> lit ''__proto__''"
  have "parse_line env line = obj_set env (trim line) (Str [])"
    using a by (blast intro: parse_line_no_eq)
  then show "own (parse_line env line) (trim line) = Some (Str [])"
    using p by (simp add: own_obj_set del: lit_def)
next
  assume a: "trim line \<noteq> [] \<and> \<not> startsWith (trim line) (lit ''#'')
        \<and> cu (CHR ''='') \<notin> set (trim line)" and p: "trim line \<noteq> lit ''__proto__''"
    and c: "split_on LF content = pre @ line # post"
  have step: "parse_line e line = obj_set e (trim line) (Str [])" for e
    using a by (blast intro: parse_line_no_eq)
  have "trim line \<in> fst ` set (parse_line (foldl parse_line [] pre) line)"
    using p by (simp add: step keys_obj_set del: lit_def)
  then show "trim line \<in> fst ` set (parseEnvFile content)"
    using foldl_parse_line_keys_mono [of "parse_line (foldl parse_line [] pre) line" post]
    by (auto simp: parseEnvFile_def c)
next
  assume a: "trim line \<noteq> [] \<and> \<not> startsWith (trim line) (lit ''#'')
        \<and> cu (CHR ''='') \<notin> set (trim line)" and p: "trim line \<noteq> lit ''__proto__''"
    and c: "split_on LF content = pre @ line # post"
    and u: "\<forall>l \<in> set post. \<forall>e. own (parse_line e l) (trim line) = own e (trim line)"
  have step: "parse_line e line = obj_set e (trim line) (Str [])" for e
    using a by (blast intro: parse_line_no_eq)
  have "own (parse_line (foldl parse_line [] pre) line) (trim line) = Some (Str [])"
    using p by (simp add: step own_obj_set del: lit_def)
  then show "own (parseEnvFile content) (trim line) = Some (Str [])"
    using foldl_parse_line_untouched [OF u, of "parse_line (foldl parse_line [] pre) line"]
    by (simp add: parseEnvFile_def c)
next
  assume a: "trim line = k @ cu (CHR ''='') # rest \<and> cu (CHR ''='') \<notin> set k
        \<and> \<not> startsWith (trim line) (lit ''#'')"
  then show "parse_line env line = (if k = [] then env else obj_set env k (Str (trim rest)))"
    by (blast intro: parse_line_key_value)
next
  fix k'
  assume a: "trim line = k @ cu (CHR ''='') # rest \<and> cu (CHR ''='') \<notin> set k
        \<and> \<not> startsWith (trim line) (lit ''#'')" and k': "k' \<noteq> k"
  have "parse_line env line = (if k = [] then env else obj_set env k (Str (trim rest)))"
    using a by (blast intro: parse_line_key_value)
  then show "own (parse_line env line) k' = own env k'"
    using k' by (simp add: own_obj_set del: lit_def)
next
  assume a: "trim line = k @ cu (CHR ''='') # rest \<and> cu (CHR ''='') \<notin> set k
        \<and> \<not> startsWith (trim line) (lit ''#'')" and k: "k \<noteq> [] \<and> k \<noteq> lit ''__proto__''"
  have "parse_line env line = (if k = [] then env else obj_set env k (Str (trim rest)))"
    using a by (blast intro: parse_line_key_value)
  then show "own (parse_line env line) k = Some (Str (trim rest))"
    using k by (simp add: own_obj_set del: lit_def)
qed

theorem parseEnvFile_keeps_line_without_separator_witness:
  "parse_line [(lit ''A'', Str (lit ''1''))] (lit '' not a valid line '')
     = [(lit ''A'', Str (lit ''1'')), (lit ''not a valid line'', Str [])]
   \<and> own (parseEnvFile (lit ''A=1'' @ [LF] @ lit '' not a valid line '' @ [LF] @ lit ''B=2''))
         (lit ''not a valid line'') = Some (Str [])
   \<and> parse_line [(lit ''A'', Str (lit ''1''))] (lit '' B = 2=3 '')
       = [(lit ''A'', Str (lit ''1'')), (lit ''B '', Str (lit ''2=3''))]
   \<and> parse_line [(lit ''A'', Str (lit ''1''))] (lit '' # B=2'') = [(lit ''A'', Str (lit ''1''))]
   \<and> parse_line [(lit ''A'', Str (lit ''1''))] (lit ''=2'') = [(lit ''A'', Str (lit ''1''))]"
proof -
  let ?env = "[(lit ''A'', Str (lit ''1''))]"
  let ?content = "lit ''A=1'' @ [LF] @ lit '' not a valid line '' @ [LF] @ lit ''B=2''"
  let ?line = "lit '' not a valid line ''"
  note th = parseEnvFile_keeps_line_without_separator
  have t: "trim ?line = lit ''not a valid line''" by (simp add: eval_trim)
  have h: "trim ?line \<noteq> [] \<and> \<not> startsWith (trim ?line) (lit ''#'')
           \<and> cu (CHR ''='') \<notin> set (trim ?line)"
    by (simp add: eval_trim startsWith_def)
  have p: "trim ?line \<noteq> lit ''__proto__''" by (simp add: eval_trim)
  have c: "split_on LF ?content = [lit ''A=1''] @ ?line # [lit ''B=2'']"
    by (simp add: LF_def)
  have u: "\<forall>l \<in> set [lit ''B=2'']. \<forall>e. own (parse_line e l) (trim ?line) = own e (trim ?line)"
    by (simp add: parse_line_def eval_trim startsWith_def Let_def own_obj_set)
  have a: "parse_line ?env ?line = [(lit ''A'', Str (lit ''1'')),
    (lit ''not a valid line'', Str [])]"
    using th [of ?content ?line ?env "[lit ''A=1'']" "[lit ''B=2'']" "[]" "[]"] h
    by (simp add: eval_trim startsWith_def obj_set_def)
  have b: "own (parseEnvFile ?content) (lit ''not a valid line'') = Some (Str [])"
    using th [of ?content ?line ?env "[lit ''A=1'']" "[lit ''B=2'']" "[]" "[]"] h p c u
    unfolding t by blast
  have d: "parse_line ?env (lit '' B = 2=3 '')
       = [(lit ''A'', Str (lit ''1'')), (lit ''B '', Str (lit ''2=3''))]"
    using th [of ?content "lit '' B = 2=3 ''" ?env "[]" "[]" "lit ''B ''" "lit '' 2=3''"]
    by (simp add: eval_trim startsWith_def obj_set_def)
  have e: "parse_line ?env (lit '' # B=2'') = ?env"
    using th [of ?content "lit '' # B=2''" ?env "[]" "[]" "[]" "[]"]
    by (simp add: eval_trim startsWith_def)
  have g: "parse_line ?env (lit ''=2'') = ?env"
    using th [of ?content "lit ''=2''" ?env "[]" "[]" "[]" "lit ''2''"]
    by (simp add: eval_trim startsWith_def)
  from a b d e g show ?thesis by blast
qed


section \<open>initDb.js: release of the client and failure of the create statement\<close>

lemma until_exit_no_exit: "(\<forall>n. Exit n \<notin> set es) \<Longrightarrow> until_exit es = es"
  by (induction es rule: until_exit.induct) auto

lemma until_exit_append_exit:
  "(\<forall>n. Exit n \<notin> set es) \<Longrightarrow> until_exit (es @ Exit k # rest) = es @ [Exit k]"
  by (induction es rule: until_exit.induct) auto

lemma checkDatabaseConnection_no_exit: "Exit n \<notin> set (snd (checkDatabaseConnection w))"
  by (auto simp: checkDatabaseConnection_def split: outcome.splits)

lemma try_block_no_release: "ClientEnd \<notin> set (snd (try_block toLowerCase dbName w))"
  by (auto simp: try_block_def createDatabase_def create_failed_def runMigrations_def
      seedDatabase_def runCommand_def completed_def Let_def
      split: outcome.splits exec_result.splits option.splits prod.splits if_splits)

lemma try_block_no_exit: "Exit n \<notin> set (snd (try_block toLowerCase dbName w))"
  by (auto simp: try_block_def createDatabase_def create_failed_def runMigrations_def
      seedDatabase_def runCommand_def completed_def Let_def
      split: outcome.splits exec_result.splits option.splits prod.splits if_splits)

text \<open>Once the probe has connected, the client is ended exactly on the runs whose
  \<^verbatim>\<open>try\<close> block reaches its end: a \<^verbatim>\<open>throw\<close> leads to \<^verbatim>\<open>process.exit(1)\<close> in the
  \<^verbatim>\<open>catch\<close> block, and the \<^verbatim>\<open>finally\<close> block is never entered.\<close>

lemma main_initDb_release_iff:
  assumes "connect w = Resolves ()"
  shows "(ClientEnd \<in> set (main_initDb toLowerCase dbName w))
       = (fst (try_block toLowerCase dbName w) = Normal)"
proof -
  obtain fl t where tb: "try_block toLowerCase dbName w = (fl, t)"
    by (cases "try_block toLowerCase dbName w")
  have t: "ClientEnd \<notin> set t" "\<And>n. Exit n \<notin> set t"
    using try_block_no_release [of toLowerCase dbName w]
      try_block_no_exit [of _ toLowerCase dbName w] tb by auto
  let ?pre = "banner
     @ [Log Info (lit ''Testing database connection...''), Connect (lit ''postgres''),
        Log Success (lit ''Successfully connected to PostgreSQL server'')] @ t"
  have pre: "\<forall>n. Exit n \<notin> set ?pre" "ClientEnd \<notin> set ?pre"
    using t by (auto simp: banner_def)
  show ?thesis
  proof (cases fl)
    case Normal
    have "until_exit (?pre @ finally_block) = ?pre @ finally_block"
      by (rule until_exit_no_exit) (use pre in \<open>auto simp: finally_block_def\<close>)
    then show ?thesis
      using assms tb Normal
      by (simp add: main_initDb_def checkDatabaseConnection_def finally_block_def)
  next
    case (Thrown message)
    have "until_exit (?pre @ Exit 1 # finally_block) = ?pre @ [Exit 1]"
      by (rule until_exit_append_exit) (use pre in auto)
    moreover have "until_exit
        ((?pre @ [Log Failure (LF # lit ''Database initialization failed''),
                  Log Failure (lit ''Error: '' @ message)]) @ Exit 1 # finally_block)
        = (?pre @ [Log Failure (LF # lit ''Database initialization failed''),
                   Log Failure (lit ''Error: '' @ message)]) @ [Exit 1]"
      by (rule until_exit_append_exit) (use pre in auto)
    ultimately show ?thesis
      using assms tb Thrown pre
      by (simp add: main_initDb_def checkDatabaseConnection_def catch_block_def)
  next
    case Stuck
    have "until_exit ?pre = ?pre"
      by (rule until_exit_no_exit) (use pre in auto)
    then show ?thesis
      using assms tb Stuck pre
      by (simp add: main_initDb_def checkDatabaseConnection_def)
  qed
qed

text \<open>
  C1: on the failure paths of \<^verbatim>\<open>main\<close> the client is not released. Here the probe
  connects, the catalog has no row for the database and \<^verbatim>\<open>CREATE DATABASE\<close> fails:
  the run ends with \<^verbatim>\<open>process.exit(1)\<close> and \<^verbatim>\<open>client.end\<close> is never called.
\<close>

theorem main_initDb_failed_create_skips_release:
  "ClientEnd \<notin> set (main_initDb toLowerCase (lit ''meetcute'')
       \<lparr>connect = Resolves (), catalog_rows = Resolves 0,
        create_database = Rejects (lit ''permission denied to create database''),
        migrate = Exec_ok, seed_answer = Some (lit ''n''), seed = Exec_ok\<rparr>)
   \<and> last (main_initDb toLowerCase (lit ''meetcute'')
       \<lparr>connect = Resolves (), catalog_rows = Resolves 0,
        create_database = Rejects (lit ''permission denied to create database''),
        migrate = Exec_ok, seed_answer = Some (lit ''n''), seed = Exec_ok\<rparr>) = Exit 1"
  by (simp add: main_initDb_def checkDatabaseConnection_def try_block_def createDatabase_def
      create_failed_def catch_block_def finally_block_def banner_def Let_def)

text \<open>
  C3 as stated fails: with no row in the catalog and a failing \<^verbatim>\<open>CREATE DATABASE\<close>
  (the database was created in between), \<^verbatim>\<open>createDatabase\<close> returns \<^verbatim>\<open>false\<close>.
\<close>

theorem createDatabase_failed_create_counterexample:
  "\<not> fst (createDatabase (lit ''meetcute'')
       \<lparr>connect = Resolves (), catalog_rows = Resolves 0,
        create_database = Rejects (lit ''database already exists''),
        migrate = Exec_ok, seed_answer = Some (lit ''n''), seed = Exec_ok\<rparr>)"
  by (simp add: createDatabase_def Let_def)

text \<open>
  C3 (amended): when the \<^verbatim>\<open>CREATE DATABASE\<close> statement fails, \<^verbatim>\<open>createDatabase\<close>
  catches the failure, logs it as an error and returns \<^verbatim>\<open>false\<close>, the fatal
  outcome; \<^verbatim>\<open>main\<close> then reports \<open>Failed to create database\<close> and the process exits
  with status 1.
\<close>

theorem createDatabase_failed_create_is_fatal:
  assumes "catalog_rows w = Resolves 0" and "create_database w = Rejects message"
  shows "createDatabase dbName w =
           (False,
            [Log Info (lit ''Checking if database '' @ [cu (CHR 0x27)] @ dbName @ [cu (CHR 0x27)]
                       @ lit '' exists...''),
             Query (lit ''SELECT 1 FROM pg_database WHERE datname = $1''),
             Log Info (lit ''Creating database '' @ [cu (CHR 0x27)] @ dbName @ [cu (CHR 0x27)]
               @ lit ''...''),
             Query (lit ''CREATE DATABASE '' @ dbName),
             Log Failure (lit ''Failed to create database '' @ [cu (CHR 0x27)] @ dbName
               @ [cu (CHR 0x27)]),
             Log Failure (lit ''Error: '' @ message)])
         \<and> (connect w = Resolves () \<longrightarrow>
              last (main_initDb toLowerCase dbName w) = Exit 1
              \<and> Log Failure (lit ''Error: Failed to create database'')
                    \<in> set (main_initDb toLowerCase dbName w))"
proof -
  have c: "createDatabase dbName w =
           (False,
            [Log Info (lit ''Checking if database '' @ [cu (CHR 0x27)] @ dbName @ [cu (CHR 0x27)]
                       @ lit '' exists...''),
             Query (lit ''SELECT 1 FROM pg_database WHERE datname = $1''),
             Log Info (lit ''Creating database '' @ [cu (CHR 0x27)] @ dbName @ [cu (CHR 0x27)]
               @ lit ''...''),
             Query (lit ''CREATE DATABASE '' @ dbName),
             Log Failure (lit ''Failed to create database '' @ [cu (CHR 0x27)] @ dbName
               @ [cu (CHR 0x27)]),
             Log Failure (lit ''Error: '' @ message)])"
    using assms by (simp add: createDatabase_def create_failed_def Let_def)
  have "last (main_initDb toLowerCase dbName w) = Exit 1
        \<and> Log Failure (lit ''Error: Failed to create database'')
              \<in> set (main_initDb toLowerCase dbName w)"
    if "connect w = Resolves ()"
    using that
    by (simp add: main_initDb_def checkDatabaseConnection_def try_block_def c
        catch_block_def finally_block_def banner_def)
  with c show ?thesis by blast
qed

theorem createDatabase_failed_create_is_fatal_witness:
  "fst (createDatabase (lit ''meetcute'')
       \<lparr>connect = Resolves (), catalog_rows = Resolves 0,
        create_database = Rejects (lit ''database already exists''),
        migrate = Exec_ok, seed_answer = Some (lit ''n''), seed = Exec_ok\<rparr>) = False
   \<and> last (main_initDb lower_ascii (lit ''meetcute'')
       \<lparr>connect = Resolves (), catalog_rows = Resolves 0,
        create_database = Rejects (lit ''database already exists''),
        migrate = Exec_ok, seed_answer = Some (lit ''n''), seed = Exec_ok\<rparr>) = Exit 1"
  using createDatabase_failed_create_is_fatal [where
      w = "\<lparr>connect = Resolves (), catalog_rows = Resolves 0,
        create_database = Rejects (lit ''database already exists''),
        migrate = Exec_ok, seed_answer = Some (lit ''n''), seed = Exec_ok\<rparr>"
      and message = "lit ''database already exists''" and dbName = "lit ''meetcute''"
      and toLowerCase = lower_ascii]
  by simp


section \<open>The database module: missing database and connection descriptor\<close>

text \<open>
  C4: when the liveness query fails with the code \<open>3D000\<close> and \<^verbatim>\<open>DATABASE_URL\<close> is
  set, \<^verbatim>\<open>initializeDatabase\<close> logs and exits with status 1, and no
  \<^verbatim>\<open>CREATE DATABASE\<close> statement is issued. With \<^verbatim>\<open>DATABASE_URL\<close> not set, it opens a
  pool on the database \<^verbatim>\<open>postgres\<close> and issues \<^verbatim>\<open>CREATE DATABASE\<close> for
  \<^verbatim>\<open>env.DB_NAME\<close>; when that statement succeeds the pool is ended and no exit follows.
\<close>

theorem initializeDatabase_missing_database:
  assumes "liveness = Query_error (Some (lit ''3D000''))"
  shows "(is_set (DATABASE_URL penv) \<longrightarrow>
            initializeDatabase penv env liveness creation =
              [Query (lit ''SELECT NOW()''),
               Log Failure (lit ''Database does not exist. Please create it first when using DATABASE_URL''),
               Exit 1]
            \<and> (\<forall>sql. Query (lit ''CREATE DATABASE '' @ sql)
                         \<notin> set (initializeDatabase penv env liveness creation)))
       \<and> (\<not> is_set (DATABASE_URL penv) \<longrightarrow>
            take 3 (initializeDatabase penv env liveness creation) =
              [Query (lit ''SELECT NOW()''), NewPool (lit ''postgres''),
               Query (lit ''CREATE DATABASE '' @ name_text (DB_NAME env))]
            \<and> (creation = Query_ok \<longrightarrow>
                 initializeDatabase penv env liveness creation =
                   [Query (lit ''SELECT NOW()''), NewPool (lit ''postgres''),
                    Query (lit ''CREATE DATABASE '' @ name_text (DB_NAME env)),
                    Log Plain (lit ''Database '' @ name_text (DB_NAME env) @ lit '' created''),
                    PoolEnd]))"
  using assms by (auto simp: initializeDatabase_def split: query_result.splits)

theorem initializeDatabase_missing_database_witness:
  "initializeDatabase \<lparr>DATABASE_URL = Some (lit ''postgres://u:p@h/meetcute''), NODE_ENV = None\<rparr>
       \<lparr>DB_USER = Some (lit ''postgres''), DB_HOST = Some (lit ''localhost''),
         DB_NAME = Some (lit ''meetcute''),
        DB_PASSWORD = Some (lit ''postgres''), DB_PORT = Some (Port_text (lit ''5432''))\<rparr>
       (Query_error (Some (lit ''3D000''))) Query_ok
     = [Query (lit ''SELECT NOW()''),
        Log Failure (lit ''Database does not exist. Please create it first when using DATABASE_URL''),
        Exit 1]
   \<and> initializeDatabase \<lparr>DATABASE_URL = None, NODE_ENV = None\<rparr>
       \<lparr>DB_USER = Some (lit ''postgres''), DB_HOST = Some (lit ''localhost''),
         DB_NAME = Some (lit ''meetcute''),
        DB_PASSWORD = Some (lit ''postgres''), DB_PORT = Some (Port_text (lit ''5432''))\<rparr>
       (Query_error (Some (lit ''3D000''))) Query_ok
     = [Query (lit ''SELECT NOW()''), NewPool (lit ''postgres''),
       Query (lit ''CREATE DATABASE meetcute''),
        Log Plain (lit ''Database meetcute created''), PoolEnd]"
  using initializeDatabase_missing_database [of "Query_error (Some (lit ''3D000''))"
      "\<lparr>DATABASE_URL = Some (lit ''postgres://u:p@h/meetcute''), NODE_ENV = None\<rparr>"
      "\<lparr>DB_USER = Some (lit ''postgres''), DB_HOST = Some (lit ''localhost''),
        DB_NAME = Some (lit ''meetcute''),
        DB_PASSWORD = Some (lit ''postgres''), DB_PORT = Some (Port_text (lit ''5432''))\<rparr>" Query_ok]
    initializeDatabase_missing_database [of "Query_error (Some (lit ''3D000''))"
      "\<lparr>DATABASE_URL = None, NODE_ENV = None\<rparr>"
      "\<lparr>DB_USER = Some (lit ''postgres''), DB_HOST = Some (lit ''localhost''),
        DB_NAME = Some (lit ''meetcute''),
        DB_PASSWORD = Some (lit ''postgres''), DB_PORT = Some (Port_text (lit ''5432''))\<rparr>" Query_ok]
  by (simp add: is_set_def name_text_def)

text \<open>
  C7: when \<^verbatim>\<open>DATABASE_URL\<close> is set (to a non-empty text, which is what the test of the
  code asks) and parses as a URL, the descriptor is built from the URL, whatever the
  five discrete fields hold; its port is the number 5432 when the URL gives no port;
  and in both branches TLS is on exactly when \<^verbatim>\<open>NODE_ENV\<close> is \<open>production\<close>. With
  \<^verbatim>\<open>DATABASE_URL\<close> not set, the descriptor is built from the discrete fields.
\<close>

theorem getDbConfig_url_precedence:
  "(DATABASE_URL penv = Some s \<and> s \<noteq> [] \<and> parse_url s = Some u \<longrightarrow>
      getDbConfig parse_url penv env =
        Inr \<lparr>cfg_user = Some (username u), cfg_password = Some (password u),
             cfg_host = Some (hostname u),
             cfg_port = (if port u = [] then Port_number 5432 else Port_text (port u)),
             cfg_database = Some (strip_slash (pathname u)),
             cfg_ssl = (if NODE_ENV penv = Some (lit ''production'')
                        then Ssl_reject_unauthorized False else Ssl_off)\<rparr>)
   \<and> (is_set (DATABASE_URL penv) \<longrightarrow>
        getDbConfig parse_url penv env = getDbConfig parse_url penv env')
   \<and> (\<not> is_set (DATABASE_URL penv) \<longrightarrow>
        getDbConfig parse_url penv env =
          Inr \<lparr>cfg_user = DB_USER env, cfg_password = DB_PASSWORD env,
               cfg_host = DB_HOST env, cfg_port = port_or_default (DB_PORT env),
               cfg_database = DB_NAME env,
               cfg_ssl = (if NODE_ENV penv = Some (lit ''production'')
                          then Ssl_reject_unauthorized False else Ssl_off)\<rparr>)
   \<and> (getDbConfig parse_url penv env = Inr cfg \<longrightarrow>
        (cfg_ssl cfg \<noteq> Ssl_off) = (NODE_ENV penv = Some (lit ''production'')))"
  by (auto simp: getDbConfig_def is_set_def ssl_for_def port_or_default_def
      split: option.splits)

theorem getDbConfig_url_precedence_witness:
  "getDbConfig
     (\<lambda>s. if s = lit ''postgres://app:pw@db.example.com/meetcute''
           then Some \<lparr>username = lit ''app'', password = lit ''pw'',
             hostname = lit ''db.example.com'',
                      port = [], pathname = lit ''/meetcute''\<rparr>
           else None)
     \<lparr>DATABASE_URL = Some (lit ''postgres://app:pw@db.example.com/meetcute''),
      NODE_ENV = Some (lit ''production'')\<rparr>
     \<lparr>DB_USER = Some (lit ''postgres''), DB_HOST = Some (lit ''localhost''),
       DB_NAME = Some (lit ''other''),
      DB_PASSWORD = Some (lit ''postgres''), DB_PORT = Some (Port_text (lit ''6543''))\<rparr>
   = Inr \<lparr>cfg_user = Some (lit ''app''), cfg_password = Some (lit ''pw''),
          cfg_host = Some (lit ''db.example.com''), cfg_port = Port_number 5432,
          cfg_database = Some (lit ''meetcute''), cfg_ssl = Ssl_reject_unauthorized False\<rparr>"
  using getDbConfig_url_precedence [of
      "\<lparr>DATABASE_URL = Some (lit ''postgres://app:pw@db.example.com/meetcute''),
        NODE_ENV = Some (lit ''production'')\<rparr>"
      "(lit ''postgres://app:pw@db.example.com/meetcute'')"
      "\<lambda>s. if s = lit ''postgres://app:pw@db.example.com/meetcute''
           then Some \<lparr>username = lit ''app'', password = lit ''pw'',
             hostname = lit ''db.example.com'',
                      port = [], pathname = lit ''/meetcute''\<rparr>
           else None"
      "\<lparr>username = lit ''app'', password = lit ''pw'', hostname = lit ''db.example.com'',
        port = [], pathname = lit ''/meetcute''\<rparr>"
      "\<lparr>DB_USER = Some (lit ''postgres''), DB_HOST = Some (lit ''localhost''),
        DB_NAME = Some (lit ''other''),
        DB_PASSWORD = Some (lit ''postgres''), DB_PORT = Some (Port_text (lit ''6543''))\<rparr>"]
  by (simp add: strip_slash_def)


section \<open>validateConfig\<close>

lemma plain_lines_map: "plain_lines (map (\<lambda>key. Log Plain (f key)) ks) = map f ks"
  by (induction ks) simp_all

lemma plain_lines_append: "plain_lines (a @ b) = plain_lines a @ plain_lines b"
  by (induction a rule: plain_lines.induct) simp_all

lemma required_not_proto: "key \<in> set required \<Longrightarrow> key \<notin> set proto_names"
  unfolding required_def proto_names_def by (elim disjE | simp)+

lemma obj_get_required:
  "key \<in> set required \<Longrightarrow> obj_get env key = own env key"
  using required_not_proto [of key]
  by (cases "own env key") (auto simp: obj_get_def proto_names_def)

lemma missing_keys_eq:
  "missing_keys env = filter (\<lambda>key. own env key = None \<or> own env key = Some (Str [])) required"
  unfolding missing_keys_def
  by (rule filter_cong) (simp_all add: falsy_iff obj_get_required)

lemma showMenu_validate:
  assumes "trim line = lit ''5''"
  shows "showMenu toUpperCase f env (line # rest) =
           Returns (\<lparr>save = False, exit = False\<rparr>, env) rest
             (menu_lines toUpperCase @ [Asked menu_question line] @ snd (validateConfig env))"
  using assms by (simp add: showMenu_def askQuestion_line options_def)

text \<open>
  C6: for every map, the keys \<^verbatim>\<open>validateConfig\<close> collects as missing are exactly the
  required keys, in the order of the list, that are not own properties of the map or
  hold the empty string; these are the keys it prints, one \<open>  - key\<close> line each; it
  returns \<^verbatim>\<open>true\<close> exactly when there is none; and the menu action \<open>5\<close>, which runs it,
  hands the map back as it was.
\<close>

theorem validateConfig_reports_missing:
  "missing_keys env
     = filter (\<lambda>key. own env key = None \<or> own env key = Some (Str [])) required
   \<and> fst (validateConfig env) = (missing_keys env = [])
   \<and> plain_lines (snd (validateConfig env)) = map (\<lambda>key. lit ''  - '' @ key) (missing_keys env)
   \<and> (trim line = lit ''5'' \<longrightarrow>
        showMenu toUpperCase f env (line # rest) =
          Returns (\<lparr>save = False, exit = False\<rparr>, env) rest
            (menu_lines toUpperCase @ [Asked menu_question line] @ snd (validateConfig env)))"
proof -
  have "plain_lines (snd (validateConfig env)) = map (\<lambda>key. lit ''  - '' @ key) (missing_keys env)"
    by (simp add: validateConfig_def Let_def plain_lines_append plain_lines_map)
  moreover have "fst (validateConfig env) = (missing_keys env = [])"
    by (simp add: validateConfig_def Let_def)
  ultimately show ?thesis
    using missing_keys_eq [of env] showMenu_validate [of line toUpperCase f env rest]
    by blast
qed

theorem validateConfig_reports_missing_witness:
  "missing_keys [(lit ''NODE_ENV'', Str (lit ''development'')), (lit ''PORT'', Str []),
                 (lit ''JWT_SECRET'', Str (lit ''x'')), (lit ''DB_HOST'', Str (lit ''localhost''))]
     = [lit ''PORT'', lit ''FRONTEND_URL'', lit ''DB_PORT'', lit ''DB_NAME'', lit ''DB_USER'',
        lit ''DB_PASSWORD'']
   \<and> fst (validateConfig
             [(lit ''NODE_ENV'', Str (lit ''development'')), (lit ''PORT'', Str []),
              (lit ''JWT_SECRET'', Str (lit ''x'')), (lit ''DB_HOST'', Str (lit ''localhost''))])
       = False
   \<and> showMenu upper_ascii
         \<lparr>ENV_FILE = lit ''/app/.env'', ENV_EXAMPLE_FILE = lit ''/app/.env.example'',
          env_file = Absent, example_file = Absent, write_error = None\<rparr>
         [(lit ''PORT'', Str (lit ''5000''))] [lit '' 5 '', lit ''q''] =
          Returns (\<lparr>save = False, exit = False\<rparr>, [(lit ''PORT'', Str (lit ''5000''))])
            [lit ''q'']
            (menu_lines upper_ascii @ [Asked menu_question (lit '' 5 '')]
             @ snd (validateConfig [(lit ''PORT'', Str (lit ''5000''))]))"
proof -
  let ?f = "\<lparr>ENV_FILE = lit ''/app/.env'', ENV_EXAMPLE_FILE = lit ''/app/.env.example'',
             env_file = Absent, example_file = Absent, write_error = None\<rparr>"
  let ?env = "[(lit ''NODE_ENV'', Str (lit ''development'')), (lit ''PORT'', Str []),
               (lit ''JWT_SECRET'', Str (lit ''x'')), (lit ''DB_HOST'', Str (lit ''localhost''))]"
  note th = validateConfig_reports_missing
  have t: "trim (lit '' 5 '') = lit ''5''" by (simp add: eval_trim)
  have a: "missing_keys ?env
     = [lit ''PORT'', lit ''FRONTEND_URL'', lit ''DB_PORT'', lit ''DB_NAME'', lit ''DB_USER'',
        lit ''DB_PASSWORD'']"
    using th [where env = ?env and line = "[]" and f = ?f and rest = "[]"
        and toUpperCase = upper_ascii]
    by (simp add: required_def own_def)
  have b: "showMenu upper_ascii ?f [(lit ''PORT'', Str (lit ''5000''))] [lit '' 5 '', lit ''q''] =
          Returns (\<lparr>save = False, exit = False\<rparr>, [(lit ''PORT'', Str (lit ''5000''))])
            [lit ''q'']
            (menu_lines upper_ascii @ [Asked menu_question (lit '' 5 '')]
             @ snd (validateConfig [(lit ''PORT'', Str (lit ''5000''))]))"
    using th [where env = "[(lit ''PORT'', Str (lit ''5000''))]" and line = "lit '' 5 ''"
        and f = ?f and rest = "[lit ''q'']" and toUpperCase = upper_ascii] t
    by blast
  have c: "fst (validateConfig ?env) = False"
    using th [where env = ?env and line = "[]" and f = ?f and rest = "[]"
        and toUpperCase = upper_ascii]
    unfolding a by simp
  from a b c show ?thesis by blast
qed


section \<open>updateVariable: a blank answer for the value\<close>

lemma obj_set_same: "own env key = Some v \<Longrightarrow> obj_set env key v = env"
  by (simp add: obj_set_def own_def update_triv)

lemma obj_get_own_truthy:
  assumes "own env key = Some v" "truthy (Some v)"
  shows "truthy (obj_get env key)" "obj_set env key (or_else (obj_get env key) d) = env"
  using assms by (auto simp: obj_get_def or_else_def obj_set_def own_def update_triv)

lemma obj_get_falsy:
  "\<not> truthy (obj_get env key) \<Longrightarrow> own env key = None \<or> own env key = Some (Str [])"
  by (cases "own env key") (auto simp: obj_get_def falsy_iff split: if_splits)

lemma or_else_truthy: "truthy (Some (or_else a (Str []))) = truthy a"
  by (cases a rule: truthy.cases) (auto simp: or_else_def)

text \<open>
  C10: in \<^verbatim>\<open>updateVariable\<close>, when the named key has a non-empty current value and the
  operator answers the value prompt with an empty or blank line, the default of the
  prompt puts the current value back: the map is left as it was and the action logs
  \<open>Updated key\<close>. The warning \<open>Value cannot be empty\<close> is logged only when the answer
  is blank and the key is not an own property of the map or holds the empty string.
\<close>

theorem updateVariable_blank_value:
  "(trim name_line \<noteq> [] \<and> own env (trim name_line) = Some v \<and> truthy (Some v)
      \<and> trim value_line = [] \<longrightarrow>
      updateVariable env (name_line # value_line # rest) =
        Returns env rest
          [Asked (lit ''Enter variable name'') name_line,
           Asked (lit ''Enter value for '' @ trim name_line) value_line,
           Log Success (lit ''Updated '' @ trim name_line)])
   \<and> (Log Warn (lit ''Value cannot be empty'') \<in> set (trace_of (updateVariable env inputs)) \<longrightarrow>
        (\<exists>name_line value_line rest.
           inputs = name_line # value_line # rest \<and> trim value_line = []
           \<and> (own env (trim name_line) = None \<or> own env (trim name_line) = Some (Str []))))"
proof (intro conjI impI)
  assume a: "trim name_line \<noteq> [] \<and> own env (trim name_line) = Some v \<and> truthy (Some v)
      \<and> trim value_line = []"
  then have o: "own env (trim name_line) = Some v" and tv: "truthy (Some v)" by auto
  have ne: "or_else (obj_get env (trim name_line)) (Str []) \<noteq> Str []"
    using or_else_truthy [of "obj_get env (trim name_line)"] obj_get_own_truthy(1) [OF o tv]
    by auto
  show "updateVariable env (name_line # value_line # rest) =
        Returns env rest
          [Asked (lit ''Enter variable name'') name_line,
           Asked (lit ''Enter value for '' @ trim name_line) value_line,
           Log Success (lit ''Updated '' @ trim name_line)]"
    using a ne obj_get_own_truthy(2) [OF o tv]
    by (simp add: updateVariable_def askQuestion_line to_string_def Let_def)
next
  assume w: "Log Warn (lit ''Value cannot be empty'') \<in> set (trace_of (updateVariable env inputs))"
  show "\<exists>name_line value_line rest.
           inputs = name_line # value_line # rest \<and> trim value_line = []
           \<and> (own env (trim name_line) = None \<or> own env (trim name_line) = Some (Str []))"
  proof (cases inputs)
    case Nil
    then show ?thesis using w by (simp add: updateVariable_def askQuestion_def)
  next
    case (Cons name_line more)
    note c1 = Cons
    show ?thesis
    proof (cases more)
      case Nil
      then show ?thesis
        using w c1
        by (simp add: updateVariable_def askQuestion_line askQuestion_def Let_def
            split: if_splits)
    next
      case (Cons value_line rest)
      have "trim value_line = [] \<and> \<not> truthy (obj_get env (trim name_line))"
        using w c1 Cons or_else_truthy [of "obj_get env (trim name_line)"]
        by (auto simp: updateVariable_def askQuestion_line Let_def to_string_def
            split: if_splits)
      then show ?thesis using c1 Cons obj_get_falsy by blast
    qed
  qed
qed


theorem updateVariable_blank_value_witness:
  "updateVariable [(lit ''PORT'', Str (lit ''5000''))] [lit ''PORT'', [32, 160, 9], lit ''q''] =
     Returns [(lit ''PORT'', Str (lit ''5000''))] [lit ''q'']
       [Asked (lit ''Enter variable name'') (lit ''PORT''),
        Asked (lit ''Enter value for PORT'') [32, 160, 9],
        Log Success (lit ''Updated PORT'')]
   \<and> Log Warn (lit ''Value cannot be empty'')
        \<in> set (trace_of (updateVariable [(lit ''PORT'', Str (lit ''5000''))]
                             [lit ''NEW'', [160]]))
   \<and> own [(lit ''PORT'', Str (lit ''5000''))] (lit ''NEW'') = None"
proof -
  let ?env = "[(lit ''PORT'', Str (lit ''5000''))]"
  note th = updateVariable_blank_value
  have t1: "trim (lit ''PORT'') = lit ''PORT''" and t2: "trim [32, 160, 9] = []"
    and t3: "trim (lit ''NEW'') = lit ''NEW''"
    by (simp_all add: eval_trim)
  have o: "own ?env (trim (lit ''PORT'')) = Some (Str (lit ''5000''))"
    by (simp add: own_def eval_trim)
  have a: "updateVariable ?env [lit ''PORT'', [32, 160, 9], lit ''q''] =
     Returns ?env [lit ''q'']
       [Asked (lit ''Enter variable name'') (lit ''PORT''),
        Asked (lit ''Enter value for PORT'') [32, 160, 9],
        Log Success (lit ''Updated PORT'')]"
    using th [where name_line = "lit ''PORT''" and env = ?env and v = "Str (lit ''5000'')"
        and value_line = "[32, 160, 9]" and rest = "[lit ''q'']" and inputs = "[]"] o t2
    by (simp add: eval_trim)
  have w: "Log Warn (lit ''Value cannot be empty'')
        \<in> set (trace_of (updateVariable ?env [lit ''NEW'', [160]]))"
    by (simp add: updateVariable_def askQuestion_line eval_trim to_string_def obj_get_def
        own_def or_else_def proto_names_def Let_def)
  have b: "own ?env (lit ''NEW'') = None"
    using th [where name_line = "[]" and env = ?env and v = "Str []" and value_line = "[]"
        and rest = "[]" and inputs = "[lit ''NEW'', [160]]"] w
    by (auto simp: eval_trim own_def)
  from a w b show ?thesis by blast
qed


section \<open>listVariables: masking of sensitive values\<close>

lemma list_all2_filter_same:
  assumes "list_all2 R xs ys" and "\<And>x y. R x y \<Longrightarrow> P x = P y"
  shows "list_all2 R (filter P xs) (filter P ys)"
  using assms by (induction xs ys rule: list_all2_induct) auto

lemma list_all2_insort_key:
  assumes "list_all2 R xs ys" and "R x y" and "\<And>x y. R x y \<Longrightarrow> f x = f y"
  shows "list_all2 R (insort_key f x xs) (insort_key f y ys)"
  using assms
proof (induction xs ys rule: list_all2_induct)
  case Nil
  then show ?case by simp
next
  case (Cons a as b bs)
  have "f a = f b" "f x = f y" using Cons by auto
  then show ?case using Cons by auto
qed

lemma list_all2_sort_key:
  assumes "list_all2 R xs ys" and "\<And>x y. R x y \<Longrightarrow> f x = f y"
  shows "list_all2 R (sort_key f xs) (sort_key f ys)"
  using assms
  by (induction xs ys rule: list_all2_induct) (auto intro: list_all2_insort_key)

lemma list_all2_Object_entries:
  assumes "list_all2 R env1 env2" and "\<And>p q. R p q \<Longrightarrow> fst p = fst q"
  shows "list_all2 R (Object_entries env1) (Object_entries env2)"
  unfolding Object_entries_def
  by (intro list_all2_appendI list_all2_sort_key list_all2_filter_same assms(1))
    (auto dest: assms(2))

lemma map_eq_list_all2:
  assumes "list_all2 R xs ys" and "\<And>x y. R x y \<Longrightarrow> g x = g y"
  shows "map g xs = map g ys"
  using assms by (induction xs ys rule: list_all2_induct) auto

lemma includes_str_iff: "includes_str s p = (\<exists>a b. s = a @ p @ b)"
proof (induction s)
  case Nil
  then show ?case by auto
next
  case (Cons c cs)
  show ?case
  proof
    assume "includes_str (c # cs) p"
    then consider "prefix p (c # cs)" | "includes_str cs p" by auto
    then show "\<exists>a b. c # cs = a @ p @ b"
    proof cases
      case 1
      then obtain b where "c # cs = p @ b" by (auto simp: prefix_def)
      then have "c # cs = [] @ p @ b" by simp
      then show ?thesis by blast
    next
      case 2
      then obtain a b where "cs = a @ p @ b" using Cons.IH by auto
      then have "c # cs = (c # a) @ p @ b" by simp
      then show ?thesis by blast
    qed
  next
    assume "\<exists>a b. c # cs = a @ p @ b"
    then obtain a b where ab: "c # cs = a @ p @ b" by auto
    show "includes_str (c # cs) p"
    proof (cases a)
      case Nil
      then have "prefix p (c # cs)" using ab by (simp add: prefix_def)
      then show ?thesis by simp
    next
      case (Cons x a')
      then have "cs = a' @ p @ b" using ab by simp
      then show ?thesis using Cons.IH by auto
    qed
  qed
qed

text \<open>
  C8: a key is sensitive exactly when its upper-cased name contains one of
  \<open>PASSWORD\<close>, \<open>SECRET\<close>, \<open>KEY\<close>, \<open>TOKEN\<close>. For every map, \<^verbatim>\<open>listVariables\<close> prints
  one line per entry; the line of a sensitive key shows the eight characters
  \<open>********\<close> whatever the value is, the line of any other key shows the string
  value as it is. So two maps with the same keys in the same order that differ only in
  the values of sensitive keys give the same listing. This holds whatever the case
  mapping \<open>toUpperCase\<close> is, the one of Unicode included.
\<close>

theorem listVariables_masks_sensitive:
  "isSensitive toUpperCase key
     = (\<exists>w \<in> set [lit ''PASSWORD'', lit ''SECRET'', lit ''KEY'', lit ''TOKEN''].
          \<exists>a b. toUpperCase key = a @ w @ b)
   \<and> (isSensitive toUpperCase key \<longrightarrow>
        display_line toUpperCase (key, v) = Log Plain (lit ''  '' @ key @ lit ''=********''))
   \<and> (\<not> isSensitive toUpperCase key \<longrightarrow>
        display_line toUpperCase (key, Str s) = Log Plain (lit ''  '' @ key @ lit ''='' @ s))
   \<and> (env \<noteq> [] \<longrightarrow>
        listVariables toUpperCase env =
          [Log Plain (LF # lit ''Current environment variables:''),
           Log Plain (lit ''-'' @ replicate 58 (cu (CHR ''-'')))]
          @ map (display_line toUpperCase) (Object_entries env))
   \<and> (list_all2 (\<lambda>p q. fst p = fst q \<and> (isSensitive toUpperCase (fst p) \<or> snd p = snd q))
          env env'
        \<longrightarrow> listVariables toUpperCase env = listVariables toUpperCase env')"
proof (intro conjI impI)
  show "isSensitive toUpperCase key
     = (\<exists>w \<in> set [lit ''PASSWORD'', lit ''SECRET'', lit ''KEY'', lit ''TOKEN''].
          \<exists>a b. toUpperCase key = a @ w @ b)"
    unfolding isSensitive_def sensitive_def list_ex_iff includes_str_iff ..
next
  assume "isSensitive toUpperCase key"
  then show "display_line toUpperCase (key, v) = Log Plain (lit ''  '' @ key @ lit ''=********'')"
    by (simp add: display_line_def)
next
  assume "\<not> isSensitive toUpperCase key"
  then show "display_line toUpperCase (key, Str s) = Log Plain (lit ''  '' @ key @ lit ''='' @ s)"
    by (simp add: display_line_def to_string_def)
next
  assume "env \<noteq> []"
  have "length (Object_entries env) = length env"
    by (simp add: Object_entries_def sum_length_filter_compl)
  then have "Object_keys env \<noteq> []"
    using \<open>env \<noteq> []\<close> by (auto simp: Object_keys_def)
  then show "listVariables toUpperCase env =
          [Log Plain (LF # lit ''Current environment variables:''),
           Log Plain (lit ''-'' @ replicate 58 (cu (CHR ''-'')))]
          @ map (display_line toUpperCase) (Object_entries env)"
    by (simp add: listVariables_def)
next
  let ?R = "\<lambda>p q. fst p = fst q \<and> (isSensitive toUpperCase (fst p) \<or> snd p = snd q)"
  assume r: "list_all2 ?R env env'"
  have e: "list_all2 ?R (Object_entries env) (Object_entries env')"
    using r by (rule list_all2_Object_entries) simp
  have "map (display_line toUpperCase) (Object_entries env)
          = map (display_line toUpperCase) (Object_entries env')"
    using e by (rule map_eq_list_all2) (auto simp: display_line_def)
  moreover have "length (Object_keys env) = length (Object_keys env')"
    using e by (simp add: Object_keys_def list_all2_lengthD)
  ultimately show "listVariables toUpperCase env = listVariables toUpperCase env'"
    by (simp add: listVariables_def)
qed


theorem listVariables_masks_sensitive_witness:
  "display_line upper_ascii (lit ''JWT_SECRET'', Str (lit ''abc''))
     = Log Plain (lit ''  JWT_SECRET=********'')
   \<and> display_line upper_ascii (lit ''PORT'', Str (lit ''5000'')) = Log Plain (lit ''  PORT=5000'')
   \<and> listVariables upper_ascii
        [(lit ''PORT'', Str (lit ''5000'')), (lit ''db_password'', Str (lit ''hunter2''))]
       = listVariables upper_ascii
           [(lit ''PORT'', Str (lit ''5000'')),
            (lit ''db_password'', Str (lit ''a much longer one''))]
   \<and> display_line
        (\<lambda>s. concat (map (\<lambda>c. if c = 223 then lit ''SS'' else upper_ascii [c]) s))
        (lit ''pa'' @ [223] @ lit ''word'', Str (lit ''open''))
       = Log Plain (lit ''  pa'' @ [223] @ lit ''word=********'')"
proof -
  note th = listVariables_masks_sensitive
  let ?up = "\<lambda>s. concat (map (\<lambda>c. if c = 223 then lit ''SS'' else upper_ascii [c]) s)"
  have s4: "isSensitive ?up (lit ''pa'' @ [223] @ lit ''word'')"
    by (simp add: isSensitive_def sensitive_def upper_ascii_def)
  have d: "display_line ?up (lit ''pa'' @ [223] @ lit ''word'', Str (lit ''open''))
       = Log Plain (lit ''  pa'' @ [223] @ lit ''word=********'')"
    using th [where toUpperCase = ?up and key = "lit ''pa'' @ [223] @ lit ''word''"
        and v = "Str (lit ''open'')" and s = "[]" and env = "[]" and env' = "[]"] s4
    by simp
  have s1: "isSensitive upper_ascii (lit ''JWT_SECRET'')"
    and s2: "\<not> isSensitive upper_ascii (lit ''PORT'')"
    and s3: "isSensitive upper_ascii (lit ''db_password'')"
    by (simp_all add: isSensitive_def sensitive_def upper_ascii_def)
  have a: "display_line upper_ascii (lit ''JWT_SECRET'', Str (lit ''abc''))
     = Log Plain (lit ''  JWT_SECRET=********'')"
    using th [where toUpperCase = upper_ascii and key = "lit ''JWT_SECRET''"
        and v = "Str (lit ''abc'')" and s = "[]" and env = "[]" and env' = "[]"] s1
    by simp
  have b: "display_line upper_ascii (lit ''PORT'', Str (lit ''5000''))
     = Log Plain (lit ''  PORT=5000'')"
    using th [where toUpperCase = upper_ascii and key = "lit ''PORT''"
        and v = "Str []" and s = "lit ''5000''" and env = "[]" and env' = "[]"] s2
    by simp
  have r: "list_all2 (\<lambda>p q. fst p = fst q \<and> (isSensitive upper_ascii (fst p) \<or> snd p = snd q))
             [(lit ''PORT'', Str (lit ''5000'')), (lit ''db_password'', Str (lit ''hunter2''))]
             [(lit ''PORT'', Str (lit ''5000'')),
              (lit ''db_password'', Str (lit ''a much longer one''))]"
    using s3 by simp
  have c: "listVariables upper_ascii
        [(lit ''PORT'', Str (lit ''5000'')), (lit ''db_password'', Str (lit ''hunter2''))]
       = listVariables upper_ascii
           [(lit ''PORT'', Str (lit ''5000'')),
            (lit ''db_password'', Str (lit ''a much longer one''))]"
    using th [where toUpperCase = upper_ascii and key = "[]" and v = "Str []" and s = "[]"
        and env = "[(lit ''PORT'', Str (lit ''5000'')),
          (lit ''db_password'', Str (lit ''hunter2''))]"
        and env' = "[(lit ''PORT'', Str (lit ''5000'')),
                     (lit ''db_password'', Str (lit ''a much longer one''))]"] r
    by blast
  from a b c d show ?thesis by blast
qed


section \<open>The menu session: saving on exit\<close>




lemma quiet_askQuestion:
  "q \<noteq> menu_question \<Longrightarrow> list_all quiet_event (trace_of (askQuestion q d inputs))"
  by (cases inputs) (auto simp: askQuestion_def)





















section \<open>stringifyEnv and parseEnvFile: the round trip\<close>

lemma trim_id:
  assumes "s \<noteq> []" "\<not> is_space (hd s)" "\<not> is_space (last s)"
  shows "trim s = s"
proof -
  have 1: "dropWhile is_space s = s" using assms by (cases s) auto
  have "rev s \<noteq> []" "\<not> is_space (hd (rev s))"
    using assms by (simp_all add: hd_rev)
  then have 2: "dropWhile is_space (rev s) = rev s" by (cases "rev s") auto
  show ?thesis by (simp add: trim_def 1 2)
qed

lemma trim_fixed_last:
  assumes "trim v = v" "v \<noteq> []"
  shows "\<not> is_space (last v)"
proof -
  let ?d = "dropWhile is_space (rev (dropWhile is_space v))"
  have v: "v = rev ?d" using assms(1) by (simp add: trim_def)
  have ne: "?d \<noteq> []"
  proof
    assume e: "?d = []"
    have "v = rev ?d" by (fact v)
    also have "\<dots> = []" by (simp only: e rev.simps)
    finally show False using assms(2) by simp
  qed
  then have "\<not> is_space (hd ?d)" by (rule hd_dropWhile)
  moreover have "last v = hd ?d"
  proof -
    have "last v = last (rev ?d)" by (rule arg_cong [OF v])
    also have "\<dots> = hd ?d" by (simp add: last_rev)
    finally show ?thesis .
  qed
  ultimately show ?thesis by simp
qed

lemma trim_entry_line:
  assumes "k \<noteq> []" "\<not> is_space (hd k)" "trim v = v"
  shows "trim (k @ cu (CHR ''='') # v) = k @ cu (CHR ''='') # v"
proof (rule trim_id)
  show "k @ cu (CHR ''='') # v \<noteq> []" by simp
  show "\<not> is_space (hd (k @ cu (CHR ''='') # v))" using assms by simp
  show "\<not> is_space (last (k @ cu (CHR ''='') # v))"
    using trim_fixed_last [OF assms(3)] by (cases "v = []")
      (simp_all add: is_space_def white_space_def line_terminator_def)
qed

lemma parse_line_entry:
  assumes "valid_key k" "valid_value v"
  shows "parse_line env (entry_line (k, Str v)) = obj_set env k (Str v)"
proof -
  have t: "trim (k @ cu (CHR ''='') # v) = k @ cu (CHR ''='') # v"
    using assms by (intro trim_entry_line) (simp_all add: valid_key_def valid_value_def)
  have h: "\<not> startsWith (k @ cu (CHR ''='') # v) (lit ''#'')"
    using assms(1) by (cases k) (auto simp: valid_key_def startsWith_def)
  show ?thesis
    using assms t h
    by (simp add: parse_line_def entry_line_def to_string_def Let_def split_on_append
        join_split_on valid_key_def valid_value_def)
qed

lemma parse_line_blank: "parse_line env [] = env"
  by (simp add: parse_line_def trim_Nil)

lemma split_on_join_lines:
  assumes "\<forall>l \<in> set (l0 # ls). c \<notin> set l"
  shows "split_on c (join [c] (l0 # ls) @ [c]) = (l0 # ls) @ [[]]"
  using assms
proof (induction ls arbitrary: l0)
  case Nil
  then show ?case using split_on_append [of c l0 "[]"] by simp
next
  case (Cons l1 ls)
  have "split_on c (l0 @ c # (join [c] (l1 # ls) @ [c]))
          = l0 # split_on c (join [c] (l1 # ls) @ [c])"
    using Cons.prems by (intro split_on_append) simp
  then show ?case using Cons.IH [of l1] Cons.prems by simp
qed

lemma update_fresh: "k \<notin> fst ` set al \<Longrightarrow> AList.update k v al = al @ [(k, v)]"
  by (induction al) auto

lemma foldl_parse_entries:
  assumes "list_all valid_entry es" "distinct (map fst es)" "fst ` set es \<inter> fst ` set acc = {}"
  shows "foldl parse_line acc (map entry_line es) = acc @ es"
  using assms
proof (induction es arbitrary: acc)
  case Nil
  then show ?case by simp
next
  case (Cons p es)
  obtain k x where p: "p = (k, x)" by (cases p)
  from Cons.prems(1) p obtain v where x: "x = Str v" and vk: "valid_key k" and vv: "valid_value v"
    by (cases x) (auto simp: valid_entry_def)
  have fresh: "k \<notin> fst ` set acc" using Cons.prems(3) p by auto
  have step: "parse_line acc (entry_line p) = acc @ [p]"
    using parse_line_entry [OF vk vv, of acc] vk fresh
    by (simp add: p x obj_set_def valid_key_def update_fresh)
  have "foldl parse_line (acc @ [p]) (map entry_line es) = (acc @ [p]) @ es"
  proof (rule Cons.IH)
    show "list_all valid_entry es" using Cons.prems(1) by simp
    show "distinct (map fst es)" using Cons.prems(2) by simp
    show "fst ` set es \<inter> fst ` set (acc @ [p]) = {}"
      using Cons.prems(2,3) by (auto simp: image_iff)
  qed
  then show ?case by (simp add: step)
qed

lemma entry_line_no_LF:
  "valid_entry p \<Longrightarrow> LF \<notin> set (entry_line p)"
  by (cases p, cases "snd p")
    (auto simp: valid_entry_def valid_key_def valid_value_def entry_line_def to_string_def
      LF_def)

lemma parse_stringify_entries:
  assumes "list_all valid_entry es" "distinct (map fst es)"
  shows "foldl parse_line [] (split_on LF (join [LF] (map entry_line es) @ [LF])) = es"
proof (cases es)
  case Nil
  then show ?thesis by (simp add: LF_def parse_line_blank)
next
  case (Cons p ps)
  have "\<forall>l \<in> set (entry_line p # map entry_line ps). LF \<notin> set l"
    using assms(1) Cons by (auto simp: list_all_iff entry_line_no_LF)
  then have "split_on LF (join [LF] (map entry_line es) @ [LF]) = map entry_line es @ [[]]"
    using split_on_join_lines [of "entry_line p" "map entry_line ps" LF] Cons by simp
  then show ?thesis
    using foldl_parse_entries [OF assms, of "[]"] by (simp add: parse_line_blank)
qed


lemma set_Object_entries: "set (Object_entries env) = set env"
  by (auto simp: Object_entries_def)

lemma distinct_Object_entries:
  assumes "distinct (map fst env)"
  shows "distinct (map fst (Object_entries env))"
proof -
  have d: "distinct env" and i: "inj_on fst (set env)"
    using assms by (simp_all add: distinct_map)
  have "distinct (Object_entries env)"
    using d by (auto simp: Object_entries_def)
  then show ?thesis
    using i by (simp add: distinct_map set_Object_entries)
qed

lemma Object_entries_idem: "Object_entries (Object_entries env) = Object_entries env"
proof -
  let ?P = "\<lambda>p. is_array_index (fst p)"
  let ?f = "\<lambda>p. dec_val (fst p)"
  let ?s = "sort_key ?f (filter ?P env)"
  have a: "filter ?P (?s @ filter (\<lambda>p. \<not> ?P p) env) = ?s"
    by (simp add: filter_sort)
  have b: "filter (\<lambda>p. \<not> ?P p) (?s @ filter (\<lambda>p. \<not> ?P p) env) = filter (\<lambda>p. \<not> ?P p) env"
    by (simp add: filter_sort)
  have c: "sort_key ?f ?s = ?s"
    by (rule sort_key_id_if_sorted) simp
  show ?thesis
    unfolding Object_entries_def [of "sort_key ?f (filter ?P env) @ filter (\<lambda>p. \<not> ?P p) env"]
      Object_entries_def [of env] a b c ..
qed

text \<open>
  A value that ends with a no-break space (U+00A0) is read back without it: \<^verbatim>\<open>trim\<close>
  strips every code unit of \<open>white_space\<close> and \<open>line_terminator\<close>, not only the
  ASCII ones.
\<close>

lemma parseEnvFile_strips_no_break_space:
  "parseEnvFile (stringifyEnv [(lit ''A'', Str (lit ''v'' @ [160]))])
     = [(lit ''A'', Str (lit ''v''))]"
  by (simp add: parseEnvFile_def stringifyEnv_def Object_entries_def is_array_index_def
      is_digit_def entry_line_def to_string_def LF_def parse_line_def trim_def is_space_def
      white_space_def line_terminator_def startsWith_def obj_set_def Let_def)

text \<open>
  C5 (amended): let \<open>m\<close> be a map with string values whose keys are not empty, have
  no \<open>=\<close> and no line feed, do not start with white space or \<open>#\<close> and are not
  \<^verbatim>\<open>__proto__\<close>, and whose values have no line feed and no white space around them.
  Then parsing the serialisation of \<open>m\<close> gives a map with the entries of \<open>m\<close>: the same
  keys with the same values, in the order of \<^verbatim>\<open>Object.entries(m)\<close>.
\<close>

theorem parseEnvFile_stringifyEnv_roundtrip:
  assumes "distinct (map fst m)" and "list_all valid_entry m"
  shows "parseEnvFile (stringifyEnv m) = Object_entries m
       \<and> Object_entries (parseEnvFile (stringifyEnv m)) = Object_entries m"
proof -
  have v: "list_all valid_entry (Object_entries m)"
    using assms(2) by (simp add: list_all_iff set_Object_entries)
  have "parseEnvFile (stringifyEnv m) = Object_entries m"
    unfolding parseEnvFile_def stringifyEnv_def
    using v distinct_Object_entries [OF assms(1)] by (rule parse_stringify_entries)
  then show ?thesis by (simp add: Object_entries_idem)
qed

theorem parseEnvFile_stringifyEnv_roundtrip_witness:
  "parseEnvFile (stringifyEnv
      [(lit ''PORT'', Str (lit ''5000'')), (lit ''10'', Str (lit ''ten'')),
       (lit ''JWT_SECRET'', Str (lit ''a=b c'')), (lit ''9'', Str []),
       (lit ''DB_HOST '', Str (lit ''localhost''))])
     = [(lit ''9'', Str []), (lit ''10'', Str (lit ''ten'')), (lit ''PORT'', Str (lit ''5000'')),
        (lit ''JWT_SECRET'', Str (lit ''a=b c'')), (lit ''DB_HOST '', Str (lit ''localhost''))]
   \<and> Object_entries
        [(lit ''PORT'', Str (lit ''5000'')), (lit ''10'', Str (lit ''ten'')),
         (lit ''JWT_SECRET'', Str (lit ''a=b c'')), (lit ''9'', Str []),
         (lit ''DB_HOST '', Str (lit ''localhost''))]
     = [(lit ''9'', Str []), (lit ''10'', Str (lit ''ten'')), (lit ''PORT'', Str (lit ''5000'')),
        (lit ''JWT_SECRET'', Str (lit ''a=b c'')), (lit ''DB_HOST '', Str (lit ''localhost''))]"
proof -
  let ?m = "[(lit ''PORT'', Str (lit ''5000'')), (lit ''10'', Str (lit ''ten'')),
             (lit ''JWT_SECRET'', Str (lit ''a=b c'')), (lit ''9'', Str []),
             (lit ''DB_HOST '', Str (lit ''localhost''))]"
  have d: "distinct (map fst ?m)" by simp
  have v: "list_all valid_entry ?m"
    by (simp add: valid_entry_def valid_key_def valid_value_def eval_trim LF_def)
  have e: "Object_entries ?m
     = [(lit ''9'', Str []), (lit ''10'', Str (lit ''ten'')), (lit ''PORT'', Str (lit ''5000'')),
        (lit ''JWT_SECRET'', Str (lit ''a=b c'')), (lit ''DB_HOST '', Str (lit ''localhost''))]"
    by (simp add: Object_entries_def is_array_index_def is_digit_def dec_val_def)
  show ?thesis
    using parseEnvFile_stringifyEnv_roundtrip [OF d v] by (simp only: e simp_thms)
qed

text \<open>
  C5 as stated fails: the key \<open> A\<close>, with a leading blank, is not empty, has no \<open>=\<close>
  and does not start with \<open>#\<close>, and the value \<open>v\<close> has no line feed and no white
  space around it; but the line \<open> A=v\<close> is trimmed before it is split, and the map read
  back has the key \<open>A\<close>.
\<close>

theorem parseEnvFile_stringifyEnv_roundtrip_counterexample:
  "lit '' A'' \<noteq> [] \<and> cu (CHR ''='') \<notin> set (lit '' A'') \<and> hd (lit '' A'') \<noteq> cu (CHR ''#'')
   \<and> LF \<notin> set (lit ''v'') \<and> trim (lit ''v'') = lit ''v''
   \<and> parseEnvFile (stringifyEnv [(lit '' A'', Str (lit ''v''))]) = [(lit ''A'', Str (lit ''v''))]
   \<and> Object_entries (parseEnvFile (stringifyEnv [(lit '' A'', Str (lit ''v''))]))
       \<noteq> Object_entries [(lit '' A'', Str (lit ''v''))]"
proof -
  have p: "parseEnvFile (stringifyEnv [(lit '' A'', Str (lit ''v''))])
             = [(lit ''A'', Str (lit ''v''))]"
    by (simp add: parseEnvFile_def stringifyEnv_def Object_entries_def is_array_index_def
        is_digit_def entry_line_def to_string_def LF_def parse_line_def eval_trim
        startsWith_def obj_set_def Let_def)
  have n: "Object_entries [(lit ''A'', Str (lit ''v''))]
             \<noteq> Object_entries [(lit '' A'', Str (lit ''v''))]"
    by (simp add: Object_entries_def is_array_index_def is_digit_def)
  have k: "lit '' A'' \<noteq> [] \<and> cu (CHR ''='') \<notin> set (lit '' A'')
           \<and> hd (lit '' A'') \<noteq> cu (CHR ''#'')
           \<and> LF \<notin> set (lit ''v'') \<and> trim (lit ''v'') = lit ''v''"
    by (simp add: LF_def eval_trim)
  show ?thesis using k n by (simp only: p simp_thms)
qed

end
